theory Spec2Isabelle
  imports Complex_Main
begin

section \<open>Values, cells, rows and worksheets\<close>

text \<open>
  A Python \<^verbatim>\<open>str\<close> is a sequence of Unicode code points, and two strings are equal
  when their code points are. The column names of the program are Cyrillic, so a string
  is modelled as the list of its code points.
\<close>

type_synonym pystr = "nat list"

text \<open>
  The values a cell of a workbook loaded with \<^verbatim>\<open>data_only=True\<close> can hold:
  \<^verbatim>\<open>None\<close> for a blank cell, a string, an integer, a boolean, a float and a date
  or time. A float is given by its exact numeric value together with the text
  \<^verbatim>\<open>str()\<close> prints for it, a date or time by that text alone: the program only ever
  prints such a value or compares it with another one.
\<close>

datatype pyval =
    PNone
  | PStr pystr
  | PInt int
  | PBool bool
  | PFloat rat pystr
  | PDate pystr

text \<open>
  Python's \<^verbatim>\<open>==\<close> on these values, which is also the equality of dictionary keys:
  numbers are compared by value whatever their type (\<^verbatim>\<open>1 == 1.0 == True\<close>), everything
  else within its own type. \<open>key_of\<close> maps a value to its class under \<^verbatim>\<open>==\<close>.
\<close>

datatype pykey = KNone | KStr pystr | KNum rat | KDate pystr

fun key_of :: "pyval \<Rightarrow> pykey" where
  "key_of PNone = KNone"
| "key_of (PStr s) = KStr s"
| "key_of (PInt i) = KNum (of_int i)"
| "key_of (PBool b) = KNum (if b then 1 else 0)"
| "key_of (PFloat q r) = KNum q"
| "key_of (PDate r) = KDate r"

definition py_eq :: "pyval \<Rightarrow> pyval \<Rightarrow> bool" where
  "py_eq a b = (key_of a = key_of b)"

text \<open>An openpyxl cell: its value and its coordinate (row and column number).\<close>

record cell =
  cell_value :: pyval
  cell_row :: nat
  cell_column :: nat

type_synonym row = "cell list"

type_synonym worksheet = "row list"

section \<open>The whitelist\<close>

text \<open>
  \<^verbatim>\<open>WANTED_FIELDS = ("FIO", "Dolzhnost", "Otdel", "Data najma", "Zarplata")\<close> in
  Cyrillic letters (name, position, department, hiring date, salary), as code points.
\<close>

definition WANTED_FIELDS :: "pystr list" where
  "WANTED_FIELDS =
     [[1060, 1048, 1054],
      [1044, 1086, 1083, 1078, 1085, 1086, 1089, 1090, 1100],
      [1054, 1090, 1076, 1077, 1083],
      [1044, 1072, 1090, 1072, 32, 1085, 1072, 1081, 1084, 1072],
      [1047, 1072, 1088, 1087, 1083, 1072, 1090, 1072]]"

text \<open>\<^verbatim>\<open>v in self.WANTED_FIELDS\<close>: some element of the tuple equals \<open>v\<close>.\<close>

definition in_wanted :: "pyval \<Rightarrow> bool" where
  "in_wanted v = list_ex (\<lambda>w. py_eq v (PStr w)) WANTED_FIELDS"

text \<open>\<^verbatim>\<open>any(cell.value in self.WANTED_FIELDS for cell in row)\<close>\<close>

definition has_wanted :: "row \<Rightarrow> bool" where
  "has_wanted r = list_ex (\<lambda>c. in_wanted (cell_value c)) r"

section \<open>The row classifier\<close>

text \<open>
  \<^verbatim>\<open>_rows_of_table\<close> and \<^verbatim>\<open>_get_meta_data\<close> are generators over
  \<^verbatim>\<open>sheet.iter_rows()\<close> that carry the flag \<^verbatim>\<open>is_table\<close> from row to row. Neither
  can raise, so each is the list of the rows it yields; the flag is the first argument
  of the loop.
\<close>

fun rows_of_table_loop :: "bool \<Rightarrow> worksheet \<Rightarrow> row list" where
  "rows_of_table_loop is_table [] = []"
| "rows_of_table_loop is_table (r # rs) =
     (let is_table' = (is_table \<or> has_wanted r)
      in if is_table' then r # rows_of_table_loop is_table' rs
         else rows_of_table_loop is_table' rs)"

definition rows_of_table :: "worksheet \<Rightarrow> row list" where
  "rows_of_table sheet = rows_of_table_loop False sheet"

fun get_meta_data_loop :: "bool \<Rightarrow> worksheet \<Rightarrow> row list" where
  "get_meta_data_loop is_table [] = []"
| "get_meta_data_loop is_table (r # rs) =
     (let is_table' = (is_table \<or> has_wanted r)
      in if \<not> is_table' then r # get_meta_data_loop is_table' rs
         else get_meta_data_loop is_table' rs)"

definition get_meta_data :: "worksheet \<Rightarrow> row list" where
  "get_meta_data sheet = get_meta_data_loop False sheet"

section \<open>Exceptions and generators\<close>

text \<open>
  The exceptions the processor can end with. \<^verbatim>\<open>TablesNotFound\<close>, \<^verbatim>\<open>FieldNotFound\<close>
  and \<^verbatim>\<open>RowsNotFound\<close> are the classes of the module \<^verbatim>\<open>cast_exceptions\<close>;
  \<^verbatim>\<open>AttributeError\<close>, \<^verbatim>\<open>KeyError\<close> and \<^verbatim>\<open>PermissionError\<close> are Python's own.
  A \<^verbatim>\<open>PermissionError\<close> carries its message: the operating system's, or one of the
  two the processor raises (source file busy, destination file busy). \<open>OtherError\<close>
  stands for any other exception of the library calls.
\<close>

datatype perm_msg = OsMessage | SourceBusy | DestBusy

datatype py_error =
    TablesNotFound
  | FieldNotFound
  | RowsNotFound
  | AttributeError
  | KeyError
  | PermissionError perm_msg
  | OtherError nat

text \<open>
  A generator that is run to its end has yielded a list of items and has then either
  returned (\<open>None\<close>) or raised (\<open>Some e\<close>). The consumer sees the items in order and
  then, when it asks for one more, \<^verbatim>\<open>StopIteration\<close> or the exception.
\<close>

type_synonym 'a gen = "'a list \<times> py_error option"

section \<open>The string form of a value\<close>

function str_nat :: "nat \<Rightarrow> pystr" where
  "str_nat n = (if n < 10 then [48 + n] else str_nat (n div 10) @ [48 + n mod 10])"
  by pat_completeness auto
termination
  by (relation "measure id") auto

declare str_nat.simps [simp del]

definition str_int :: "int \<Rightarrow> pystr" where
  "str_int i = (if i < 0 then 45 # str_nat (nat (- i)) else str_nat (nat i))"

text \<open>
  \<^verbatim>\<open>str(v)\<close>: a string is itself, \<^verbatim>\<open>None\<close> is the text None, a boolean the text
  True or False, an integer its decimal digits.
\<close>

fun py_str :: "pyval \<Rightarrow> pystr" where
  "py_str PNone = [78, 111, 110, 101]"
| "py_str (PStr s) = s"
| "py_str (PInt i) = str_int i"
| "py_str (PBool b) = (if b then [84, 114, 117, 101] else [70, 97, 108, 115, 101])"
| "py_str (PFloat q r) = r"
| "py_str (PDate r) = r"

section \<open>Records: dictionaries from column name to cell\<close>

text \<open>
  A Python \<^verbatim>\<open>dict\<close> keeps its keys in the order of their first insertion; a key
  that is stored again keeps its place and its first key object and takes the new
  value. It is modelled as an association list.
\<close>

type_synonym pydict = "(pyval \<times> cell) list"

fun dict_set :: "pydict \<Rightarrow> pyval \<Rightarrow> cell \<Rightarrow> pydict" where
  "dict_set [] k c = [(k, c)]"
| "dict_set ((k', c') # d) k c =
     (if py_eq k' k then (k', c) # d else (k', c') # dict_set d k c)"

text \<open>\<^verbatim>\<open>d[k]\<close> is \<open>None\<close> where Python raises \<^verbatim>\<open>KeyError\<close>.\<close>

fun dict_get :: "pydict \<Rightarrow> pyval \<Rightarrow> cell option" where
  "dict_get [] k = None"
| "dict_get ((k', c') # d) k = (if py_eq k' k then Some c' else dict_get d k)"

text \<open>\<^verbatim>\<open>d.pop(k, None)\<close>: the entry of \<open>k\<close> is removed when there is one.\<close>

definition dict_pop :: "pydict \<Rightarrow> pyval \<Rightarrow> pydict" where
  "dict_pop d k = filter (\<lambda>(k', c'). \<not> py_eq k' k) d"

definition dict_keys :: "pydict \<Rightarrow> pyval list" where
  "dict_keys d = map fst d"

definition dict_values :: "pydict \<Rightarrow> cell list" where
  "dict_values d = map snd d"

text \<open>The key set of a record and the column set of a header, up to Python's \<^verbatim>\<open>==\<close>.\<close>

definition key_set :: "pydict \<Rightarrow> pykey set" where
  "key_set d = key_of ` set (dict_keys d)"

definition column_set :: "pyval list \<Rightarrow> pykey set" where
  "column_set names = key_of ` set names"

definition whitelist :: "pykey set" where
  "whitelist = KStr ` set WANTED_FIELDS"

section \<open>The row materializer\<close>

text \<open>
  \<^verbatim>\<open>{field_name: cell for field_name, cell in zip(self.fieldnames, row)}\<close>:
  \<open>zip\<close> stops at the shorter of the two, and the comprehension stores the pairs from
  left to right.
\<close>

definition format_row :: "pyval list \<Rightarrow> row \<Rightarrow> pydict" where
  "format_row fieldnames r =
     foldl (\<lambda>d (field_name, c). dict_set d field_name c) [] (zip fieldnames r)"

definition format_data :: "pyval list \<Rightarrow> row list \<Rightarrow> pydict list" where
  "format_data fieldnames data = map (format_row fieldnames) data"

section \<open>Filtering\<close>

text \<open>
  \<^verbatim>\<open>list(filter(lambda x: x.lower() == self.field_name.lower(), self.fieldnames))\<close>.
  Only a string has the method \<^verbatim>\<open>lower\<close>: on any other header value the lambda
  raises \<^verbatim>\<open>AttributeError\<close>. Python's \<^verbatim>\<open>str.lower\<close> is the parameter \<open>lower\<close>.
\<close>

fun matching_fields :: "(pystr \<Rightarrow> pystr) \<Rightarrow> pystr \<Rightarrow> pyval list \<Rightarrow> py_error + pyval list" where
  "matching_fields lower field_name [] = Inr []"
| "matching_fields lower field_name (x # xs) =
     (case x of
        PStr s \<Rightarrow>
          (case matching_fields lower field_name xs of
             Inl e \<Rightarrow> Inl e
           | Inr ys \<Rightarrow> Inr (if lower s = lower field_name then x # ys else ys))
      | _ \<Rightarrow> Inl AttributeError)"

text \<open>
  The loop of \<^verbatim>\<open>_filter_data\<close> over the records, for the chosen header \<open>f\<close>:
  \<^verbatim>\<open>row[f]\<close> raises \<^verbatim>\<open>KeyError\<close> on a record without that key, which ends the
  generator; \<^verbatim>\<open>str(row[f].value) == self.value\<close> decides whether the record is
  yielded.
\<close>

fun filter_rows :: "pyval \<Rightarrow> pyval \<Rightarrow> pydict list \<Rightarrow> pydict gen" where
  "filter_rows f v [] = ([], None)"
| "filter_rows f v (r # data) =
     (case dict_get r f of
        None \<Rightarrow> ([], Some KeyError)
      | Some c \<Rightarrow>
          (let rest = filter_rows f v data
           in if py_eq (PStr (py_str (cell_value c))) v then (r # fst rest, snd rest)
              else rest))"

definition filter_data ::
  "(pystr \<Rightarrow> pystr) \<Rightarrow> pyval list \<Rightarrow> pystr \<Rightarrow> pyval \<Rightarrow> pydict list \<Rightarrow> pydict gen" where
  "filter_data lower fieldnames field_name v data =
     (case matching_fields lower field_name fieldnames of
        Inl e \<Rightarrow> ([], Some e)
      | Inr field \<Rightarrow>
          (case field of
             [] \<Rightarrow> ([], Some FieldNotFound)
           | f # _ \<Rightarrow> filter_rows f v data))"

text \<open>
  The string form of the cell that a record has under a header name, when it has one:
  \<^verbatim>\<open>str(row[f].value)\<close>.
\<close>

definition field_text :: "pydict \<Rightarrow> pyval \<Rightarrow> pystr option" where
  "field_text r f = map_option (\<lambda>c. py_str (cell_value c)) (dict_get r f)"

section \<open>Projection\<close>

text \<open>
  \<^verbatim>\<open>_del_fields\<close>: for every header name that is not whitelisted, its key is popped
  from the record; the record is then yielded. An exception of the generator it reads
  from passes through.
\<close>

definition del_fields_row :: "pyval list \<Rightarrow> pydict \<Rightarrow> pydict" where
  "del_fields_row fieldnames r =
     foldl (\<lambda>d field. if \<not> in_wanted field then dict_pop d field else d) r fieldnames"

definition del_fields :: "pyval list \<Rightarrow> pydict gen \<Rightarrow> pydict gen" where
  "del_fields fieldnames data = (map (del_fields_row fieldnames) (fst data), snd data)"

section \<open>Processing a workbook\<close>

text \<open>
  What \<^verbatim>\<open>process\<close> writes into the sheet of the new workbook: the metadata cells at
  their coordinates, the row of retained header names, and the values of the filtered,
  projected records. Styles are left out.
\<close>

record out_sheet =
  out_meta :: "row list"
  out_fields :: "pyval list"
  out_rows :: "pyval list list"

type_synonym workbook = "(pystr \<times> worksheet) list"

type_synonym out_workbook = "(pystr \<times> out_sheet) list"

text \<open>
  The body of the loop over the sheets. \<^verbatim>\<open>next(raw_data)\<close> on an empty table raises
  \<^verbatim>\<open>StopIteration\<close>, which becomes \<^verbatim>\<open>TablesNotFound\<close>; the first table row is the
  header. \<^verbatim>\<open>next(filtered_data)\<close> runs the filter up to its first record: it raises
  what the filter raises before that record, and \<^verbatim>\<open>StopIteration\<close>, which becomes
  \<^verbatim>\<open>RowsNotFound\<close>, when the filter ends without one. The loop that appends the rows
  runs the generators to their end, so an exception after the first record is raised
  there.
\<close>

definition process_sheet ::
  "(pystr \<Rightarrow> pystr) \<Rightarrow> pystr \<Rightarrow> pyval \<Rightarrow> worksheet \<Rightarrow> py_error + out_sheet" where
  "process_sheet lower field_name v sheet =
     (case rows_of_table sheet of
        [] \<Rightarrow> Inl TablesNotFound
      | tuple_of_fields # raw_data \<Rightarrow>
          (let fieldnames = map cell_value tuple_of_fields;
               data = format_data fieldnames raw_data;
               filtered_data = filter_data lower fieldnames field_name v data
           in case filtered_data of
                ([], None) \<Rightarrow> Inl RowsNotFound
              | ([], Some e) \<Rightarrow> Inl e
              | (first_row # later_rows, ending) \<Rightarrow>
                  (let prepared_data = del_fields fieldnames (first_row # later_rows, ending);
                       meta_data = get_meta_data sheet;
                       fields = filter in_wanted fieldnames
                   in case snd prepared_data of
                        Some e \<Rightarrow> Inl e
                      | None \<Rightarrow>
                          Inr \<lparr>out_meta = meta_data, out_fields = fields,
                               out_rows = map (\<lambda>r. map cell_value (dict_values r))
                                            (fst prepared_data)\<rparr>)))"

fun process_sheets ::
  "(pystr \<Rightarrow> pystr) \<Rightarrow> pystr \<Rightarrow> pyval \<Rightarrow> workbook \<Rightarrow> py_error + out_workbook" where
  "process_sheets lower field_name v [] = Inr []"
| "process_sheets lower field_name v ((sheet_name, sheet) # sheets) =
     (case process_sheet lower field_name v sheet of
        Inl e \<Rightarrow> Inl e
      | Inr ws \<Rightarrow>
          (case process_sheets lower field_name v sheets of
             Inl e \<Rightarrow> Inl e
           | Inr wss \<Rightarrow> Inr ((sheet_name, ws) # wss)))"

text \<open>The state of an \<^verbatim>\<open>ExcelProcessor\<close> after its constructor.\<close>

record processor =
  wb :: workbook
  output_path :: pystr
  field_name :: pystr
  filter_value :: pyval

text \<open>
  The constructor. \<open>load_workbook\<close> is openpyxl's function on the file system \<open>fs\<close>: it
  gives the workbook or raises. \<open>splitext\<close> is \<^verbatim>\<open>os.path.splitext\<close> and \<open>uuid8\<close> the
  first eight characters of the random \<^verbatim>\<open>uuid4\<close>. The texts are \<^verbatim>\<open>.xlsx\<close> and
  \<^verbatim>\<open>_\<close>.
\<close>

definition init ::
  "('fs \<Rightarrow> pystr \<Rightarrow> py_error + workbook) \<Rightarrow> (pystr \<Rightarrow> pystr \<times> pystr) \<Rightarrow> pystr \<Rightarrow>
   'fs \<Rightarrow> pystr \<Rightarrow> pystr \<Rightarrow> pyval \<Rightarrow> pystr \<Rightarrow> py_error + processor" where
  "init load_workbook splitext uuid8 fs filepath fname v opath =
     (case load_workbook fs filepath of
        Inl (PermissionError m) \<Rightarrow> Inl (PermissionError SourceBusy)
      | Inl e \<Rightarrow> Inl e
      | Inr w \<Rightarrow>
          (let opath' = (if opath \<noteq> [] \<and> snd (splitext opath) = []
                         then opath @ [46, 120, 108, 115, 120] else opath)
           in Inr \<lparr>wb = w,
                   output_path = (if opath' \<noteq> [] then opath'
                                  else fst (splitext filepath) @ [95] @ uuid8
                                       @ [46, 120, 108, 115, 120]),
                   field_name = fname,
                   filter_value = v\<rparr>))"

text \<open>
  \<^verbatim>\<open>process\<close>: every sheet in turn, then \<^verbatim>\<open>new_wb.save(self.output_path)\<close>, the only
  place that writes a file. \<open>save\<close> is openpyxl's function: its outcome and the file
  system it leaves. The result is the text the method returns (done, in Russian).
\<close>

definition done_text :: pystr where
  "done_text = [1043, 1086, 1090, 1086, 1074, 1086]"

definition process ::
  "(pystr \<Rightarrow> pystr) \<Rightarrow> ('fs \<Rightarrow> pystr \<Rightarrow> out_workbook \<Rightarrow> py_error option \<times> 'fs) \<Rightarrow>
   'fs \<Rightarrow> processor \<Rightarrow> (py_error + pystr) \<times> 'fs" where
  "process lower save fs p =
     (case process_sheets lower (field_name p) (filter_value p) (wb p) of
        Inl e \<Rightarrow> (Inl e, fs)
      | Inr new_wb \<Rightarrow>
          (case save fs (output_path p) new_wb of
             (Some (PermissionError m), fs') \<Rightarrow> (Inl (PermissionError DestBusy), fs')
           | (Some e, fs') \<Rightarrow> (Inl e, fs')
           | (None, fs') \<Rightarrow> (Inr done_text, fs')))"

text \<open>
  The window of \<^verbatim>\<open>interface.py\<close> is left out. Its \<^verbatim>\<open>run_processor\<close> calls the
  constructor with a keyword \<^verbatim>\<open>wanted_fields\<close> that \<^verbatim>\<open>__init__\<close> does not take, so
  that call raises \<^verbatim>\<open>TypeError\<close> before the body of the constructor runs. What follows
  is about the class \<^verbatim>\<open>ExcelProcessor\<close> itself: the constructor \<open>init\<close>, which makes no
  call that writes a file, and the method \<^verbatim>\<open>process\<close>, which needs the object that the
  constructor returns.
\<close>

section \<open>A lower-casing function for the examples\<close>

text \<open>
  \<^verbatim>\<open>str.lower\<close> on the Latin letters A to Z and on the Cyrillic capital letters
  (U+0400 to U+042F); every other code point is left as it is. The theorems below hold
  for any function \<open>lower\<close>; this one evaluates the examples.
\<close>

definition lower_cp :: "nat \<Rightarrow> nat" where
  "lower_cp c =
     (if 65 \<le> c \<and> c \<le> 90 then c + 32
      else if 1040 \<le> c \<and> c \<le> 1071 then c + 32
      else if 1024 \<le> c \<and> c \<le> 1039 then c + 80
      else c)"

definition lower_basic :: "pystr \<Rightarrow> pystr" where
  "lower_basic s = map lower_cp s"

section \<open>An example worksheet\<close>

text \<open>
  The sheet of the specification's scenarios: two metadata rows, the header row (name,
  age, position), and two data rows (Ivanov, 30, engineer; Petrov, 40, engineer). The
  texts are Cyrillic; the age of the second row is a number.
\<close>

definition mk_cell :: "nat \<Rightarrow> nat \<Rightarrow> pyval \<Rightarrow> cell" where
  "mk_cell i j v = \<lparr>cell_value = v, cell_row = i, cell_column = j\<rparr>"

definition txt_fio :: pystr where
  "txt_fio = [1060, 1048, 1054]"

definition txt_age :: pystr where
  "txt_age = [1042, 1086, 1079, 1088, 1072, 1089, 1090]"

definition txt_position :: pystr where
  "txt_position = [1044, 1086, 1083, 1078, 1085, 1086, 1089, 1090, 1100]"

definition txt_position_lc :: pystr where
  "txt_position_lc = [1076, 1086, 1083, 1078, 1085, 1086, 1089, 1090, 1100]"

definition txt_salary :: pystr where
  "txt_salary = [1047, 1072, 1088, 1087, 1083, 1072, 1090, 1072]"

definition txt_engineer :: pystr where
  "txt_engineer = [1048, 1085, 1078, 1077, 1085, 1077, 1088]"

definition txt_engineer_lc :: pystr where
  "txt_engineer_lc = [1080, 1085, 1078, 1077, 1085, 1077, 1088]"

definition txt_director :: pystr where
  "txt_director = [1044, 1080, 1088, 1077, 1082, 1090, 1086, 1088]"

definition txt_ivanov :: pystr where
  "txt_ivanov = [1048, 1074, 1072, 1085, 1086, 1074]"

definition txt_petrov :: pystr where
  "txt_petrov = [1055, 1077, 1090, 1088, 1086, 1074]"

definition ex_meta1 :: row where
  "ex_meta1 = [mk_cell 1 1 (PStr [82, 101, 112, 111, 114, 116]), mk_cell 1 2 PNone, mk_cell 1 3 PNone]"

definition ex_meta2 :: row where
  "ex_meta2 = [mk_cell 2 1 PNone, mk_cell 2 2 (PInt 2024), mk_cell 2 3 PNone]"

definition ex_header :: row where
  "ex_header = [mk_cell 3 1 (PStr txt_fio), mk_cell 3 2 (PStr txt_age), mk_cell 3 3 (PStr txt_position)]"

definition ex_r1 :: row where
  "ex_r1 = [mk_cell 4 1 (PStr txt_ivanov), mk_cell 4 2 (PStr [51, 48]), mk_cell 4 3 (PStr txt_engineer)]"

definition ex_r2 :: row where
  "ex_r2 = [mk_cell 5 1 (PStr txt_petrov), mk_cell 5 2 (PInt 40), mk_cell 5 3 (PStr txt_engineer)]"

definition ex_sheet :: worksheet where
  "ex_sheet = [ex_meta1, ex_meta2, ex_header, ex_r1, ex_r2]"

text \<open>The header values of the example, and a data row that stops after its first cell.\<close>

definition ex_fieldnames :: "pyval list" where
  "ex_fieldnames = map cell_value ex_header"

definition ex_short :: row where
  "ex_short = [mk_cell 6 1 (PStr txt_petrov)]"

text \<open>
  A header row with a blank cell in the middle and a sheet with that header; a header of
  four columns (name, age, position, salary) for rows that stop early.
\<close>

definition ex_header_blank :: row where
  "ex_header_blank = [mk_cell 3 1 (PStr txt_fio), mk_cell 3 2 PNone, mk_cell 3 3 (PStr txt_position)]"

definition ex_sheet_blank :: worksheet where
  "ex_sheet_blank = [ex_meta1, ex_header_blank, ex_r1]"

definition ex_sheet_short :: worksheet where
  "ex_sheet_short = [ex_meta1, ex_header, ex_r1, ex_short]"

definition ex_names4 :: "pystr list" where
  "ex_names4 = [txt_fio, txt_age, txt_position, txt_salary]"

definition ex_two :: row where
  "ex_two = [mk_cell 7 1 (PStr txt_ivanov), mk_cell 7 2 (PInt 30)]"

definition ex_r3 :: row where
  "ex_r3 = [mk_cell 8 1 (PStr txt_petrov), mk_cell 8 2 (PInt 40), mk_cell 8 3 (PStr txt_engineer_lc)]"

text \<open>
  What processing the example sheet writes when the position is filtered for the
  engineers; a workbook with that one sheet; and library calls for the examples: a source
  file that is held by another process, one that is not a workbook at all (the library
  then raises an exception of its own, which is not a \<^verbatim>\<open>PermissionError\<close>), one that
  holds the example workbook, a destination that cannot be written, and one that can. The
  file system of the examples is the list of the paths written so far.
\<close>

definition ex_out :: out_sheet where
  "ex_out = \<lparr>out_meta = [ex_meta1, ex_meta2],
             out_fields = [PStr txt_fio, PStr txt_position],
             out_rows = [[PStr txt_ivanov, PStr txt_engineer], [PStr txt_petrov, PStr txt_engineer]]\<rparr>"

definition ex_wb :: workbook where
  "ex_wb = [([83, 104, 101, 101, 116, 49], ex_sheet)]"



definition load_ex :: "pystr list \<Rightarrow> pystr \<Rightarrow> py_error + workbook" where
  "load_ex fs path = Inr ex_wb"


definition save_ok :: "pystr list \<Rightarrow> pystr \<Rightarrow> out_workbook \<Rightarrow> py_error option \<times> pystr list" where
  "save_ok fs path new_wb = (None, path # fs)"

definition ex_splitext :: "pystr \<Rightarrow> pystr \<times> pystr" where
  "ex_splitext p =
     (if p = [105, 110, 46, 120, 108, 115, 120] then ([105, 110], [46, 120, 108, 115, 120])
      else (p, []))"

section \<open>Properties of the row classifier\<close>

lemma rows_of_table_loop_True: "rows_of_table_loop True rs = rs"
  by (induction rs) simp_all

lemma get_meta_data_loop_True: "get_meta_data_loop True rs = []"
  by (induction rs) simp_all

lemma rows_of_table_loop_False:
  "rows_of_table_loop False rs = dropWhile (\<lambda>r. \<not> has_wanted r) rs"
  by (induction rs) (simp_all add: rows_of_table_loop_True)

lemma get_meta_data_loop_False:
  "get_meta_data_loop False rs = takeWhile (\<lambda>r. \<not> has_wanted r) rs"
  by (induction rs) (simp_all add: get_meta_data_loop_True)

lemma rows_of_table_dropWhile:
  "rows_of_table sheet = dropWhile (\<lambda>r. \<not> has_wanted r) sheet"
  by (simp add: rows_of_table_def rows_of_table_loop_False)

lemma get_meta_data_takeWhile:
  "get_meta_data sheet = takeWhile (\<lambda>r. \<not> has_wanted r) sheet"
  by (simp add: get_meta_data_def get_meta_data_loop_False)

lemma dropWhile_append_hit:
  "\<not> P x \<Longrightarrow> dropWhile P (xs @ x # ys) = dropWhile P xs @ x # ys"
  by (induction xs) simp_all

text \<open>
  A value is found in the whitelist exactly when it is a string that is one of the
  whitelisted names: no value of another type equals a string.
\<close>

lemma in_wanted_iff: "in_wanted v \<longleftrightarrow> (\<exists>w \<in> set WANTED_FIELDS. v = PStr w)"
  by (cases v) (auto simp: in_wanted_def py_eq_def list_ex_iff)

lemma has_wanted_iff:
  "has_wanted r \<longleftrightarrow> (\<exists>c \<in> set r. \<exists>w \<in> set WANTED_FIELDS. cell_value c = PStr w)"
  by (simp add: has_wanted_def list_ex_iff in_wanted_iff)

lemma ex_has_wanted:
  "\<not> has_wanted ex_meta1" "\<not> has_wanted ex_meta2" "has_wanted ex_header"
  "\<not> has_wanted ex_r1" "\<not> has_wanted ex_r2"
  by (simp_all add: has_wanted_def in_wanted_def py_eq_def WANTED_FIELDS_def ex_meta1_def
      ex_meta2_def ex_header_def ex_r1_def ex_r2_def mk_cell_def txt_fio_def txt_age_def txt_position_def
      txt_engineer_def txt_ivanov_def txt_petrov_def)

text \<open>
  Claim C2. For every worksheet the metadata rows followed by the table rows are the
  rows of the sheet, in order, none twice and none lost. The metadata rows are the
  longest prefix of rows without a whitelisted name, the table rows everything from the
  first row with one. Once a row \<open>h\<close> with a whitelisted name has been read, every later
  row is a table row, whatever it holds. A row has a whitelisted name when the value of
  one of its cells is exactly one of the whitelisted strings.
\<close>

theorem classifier_partition:
  "get_meta_data sheet @ rows_of_table sheet = sheet
   \<and> get_meta_data sheet = takeWhile (\<lambda>r. \<not> has_wanted r) sheet
   \<and> rows_of_table sheet = dropWhile (\<lambda>r. \<not> has_wanted r) sheet
   \<and> (has_wanted h \<longrightarrow> rows_of_table (pre @ h # post) = rows_of_table pre @ h # post)
   \<and> (has_wanted h \<longleftrightarrow> (\<exists>c \<in> set h. \<exists>w \<in> set WANTED_FIELDS. cell_value c = PStr w))"
  by (simp add: rows_of_table_dropWhile get_meta_data_takeWhile dropWhile_append_hit has_wanted_iff)

theorem classifier_partition_witness:
  "get_meta_data ex_sheet @ rows_of_table ex_sheet = ex_sheet
   \<and> get_meta_data ex_sheet = [ex_meta1, ex_meta2]
   \<and> rows_of_table ex_sheet = [ex_header, ex_r1, ex_r2]
   \<and> has_wanted ex_header \<and> \<not> has_wanted ex_r1 \<and> \<not> has_wanted ex_r2
   \<and> rows_of_table ([ex_meta1, ex_meta2] @ ex_header # [ex_r1, ex_r2]) = ex_header # [ex_r1, ex_r2]"
  using classifier_partition [of ex_sheet ex_header "[ex_meta1, ex_meta2]" "[ex_r1, ex_r2]"]
  by (simp add: ex_has_wanted ex_sheet_def)

section \<open>Facts about records, filtering and header lookup\<close>

lemma py_eq_PStr: "py_eq (PStr s) v \<longleftrightarrow> PStr s = v"
  by (cases v) (auto simp: py_eq_def)

lemma key_of_KStr: "key_of v = KStr s \<longleftrightarrow> v = PStr s"
  by (cases v) auto

lemma in_wanted_whitelist: "in_wanted v \<longleftrightarrow> key_of v \<in> whitelist"
  by (auto simp: in_wanted_def whitelist_def py_eq_def list_ex_iff)

lemma key_set_Nil: "key_set [] = {}"
  by (simp add: key_set_def dict_keys_def)

lemma key_set_Cons: "key_set ((k, c) # d) = insert (key_of k) (key_set d)"
  by (simp add: key_set_def dict_keys_def)

lemma key_set_dict_set: "key_set (dict_set d k c) = insert (key_of k) (key_set d)"
proof (induction d)
  case Nil
  show ?case by (simp add: key_set_Nil key_set_Cons)
next
  case (Cons kc d)
  obtain k' c' where kc: "kc = (k', c')" by (cases kc)
  show ?case
  proof (cases "py_eq k' k")
    case True
    then have "key_of k' = key_of k" by (simp add: py_eq_def)
    with True show ?thesis by (simp add: kc key_set_Cons)
  next
    case False
    with Cons.IH show ?thesis by (auto simp: kc key_set_Cons)
  qed
qed

lemma key_set_foldl_dict_set:
  "key_set (foldl (\<lambda>d (k, c). dict_set d k c) d kcs) = key_set d \<union> key_of ` fst ` set kcs"
proof (induction kcs arbitrary: d)
  case Nil
  show ?case by simp
next
  case (Cons kc kcs)
  obtain k c where kc: "kc = (k, c)" by (cases kc)
  show ?case by (simp add: kc Cons.IH key_set_dict_set)
qed

lemma fst_set_zip: "fst ` set (zip xs ys) = set (take (length ys) xs)"
proof -
  have "fst ` set (zip xs ys) = set (map fst (zip xs ys))" by simp
  also have "map fst (zip xs ys) = take (length ys) xs"
    by (simp add: map_fst_zip_take min_def)
  finally show ?thesis .
qed

lemma key_set_format_row: "key_set (format_row fieldnames r) = column_set (take (length r) fieldnames)"
  by (simp add: format_row_def key_set_foldl_dict_set fst_set_zip column_set_def key_set_Nil)

lemma dict_get_None: "dict_get d k = None \<longleftrightarrow> key_of k \<notin> key_set d"
proof (induction d)
  case Nil
  show ?case by (simp add: key_set_Nil)
next
  case (Cons kc d)
  obtain k' c' where kc: "kc = (k', c')" by (cases kc)
  from Cons.IH show ?case by (auto simp: kc key_set_Cons py_eq_def)
qed

lemma dict_pop_Cons:
  "dict_pop ((k', c') # d) k = (if py_eq k' k then dict_pop d k else (k', c') # dict_pop d k)"
  by (simp add: dict_pop_def)

lemma key_set_dict_pop: "key_set (dict_pop d k) = key_set d - {key_of k}"
proof (induction d)
  case Nil
  show ?case by (simp add: key_set_Nil dict_pop_def)
next
  case (Cons kc d)
  obtain k' c' where kc: "kc = (k', c')" by (cases kc)
  show ?case
  proof (cases "py_eq k' k")
    case True
    then have eq: "key_of k' = key_of k" by (simp add: py_eq_def)
    have "key_set (dict_pop (kc # d) k) = key_set (dict_pop d k)"
      using True by (simp only: kc dict_pop_Cons if_True)
    also have "\<dots> = key_set d - {key_of k}" by (rule Cons.IH)
    also have "\<dots> = insert (key_of k') (key_set d) - {key_of k}"
      unfolding eq by auto
    also have "\<dots> = key_set (kc # d) - {key_of k}" by (simp only: kc key_set_Cons)
    finally show ?thesis .
  next
    case False
    then have neq: "key_of k' \<noteq> key_of k" by (simp add: py_eq_def)
    have "key_set (dict_pop (kc # d) k) = insert (key_of k') (key_set (dict_pop d k))"
      using False by (simp only: kc dict_pop_Cons if_False key_set_Cons)
    also have "\<dots> = insert (key_of k') (key_set d - {key_of k})" by (simp only: Cons.IH)
    also have "\<dots> = insert (key_of k') (key_set d) - {key_of k}"
      using neq by auto
    also have "\<dots> = key_set (kc # d) - {key_of k}" by (simp only: kc key_set_Cons)
    finally show ?thesis .
  qed
qed

lemma key_set_foldl_pop:
  "key_set (foldl (\<lambda>d field. if \<not> in_wanted field then dict_pop d field else d) d fs)
     = key_set d - {k \<in> column_set fs. k \<notin> whitelist}"
  by (induction fs arbitrary: d) (auto simp: key_set_dict_pop column_set_def in_wanted_whitelist)

lemma key_set_del_fields_row:
  "key_set (del_fields_row fieldnames d) = key_set d - {k \<in> column_set fieldnames. k \<notin> whitelist}"
  by (simp add: del_fields_row_def key_set_foldl_pop)

lemma column_set_take: "column_set (take n xs) \<subseteq> column_set xs"
  by (auto simp: column_set_def dest: in_set_takeD)

lemma key_set_projected:
  "key_set (del_fields_row fieldnames (format_row fieldnames r))
     = whitelist \<inter> column_set (take (length r) fieldnames)"
  using column_set_take [of "length r" fieldnames]
  by (auto simp: key_set_del_fields_row key_set_format_row)

lemma filter_rows_fst:
  "fst (filter_rows f v data) =
     filter (\<lambda>r. \<exists>c. dict_get r f = Some c \<and> PStr (py_str (cell_value c)) = v)
       (takeWhile (\<lambda>r. dict_get r f \<noteq> None) data)"
  by (induction data) (auto simp: py_eq_PStr Let_def split: option.splits)

lemma filter_rows_snd:
  "snd (filter_rows f v data) =
     (if list_all (\<lambda>r. dict_get r f \<noteq> None) data then None else Some KeyError)"
  by (induction data) (auto simp: Let_def split: option.splits)

lemma matching_fields_Inl: "matching_fields lower fname xs = Inl e \<Longrightarrow> e = AttributeError"
  by (induction xs arbitrary: e) (auto split: pyval.splits sum.splits)

lemma matching_fields_strings:
  "matching_fields lower fname (map PStr names)
     = Inr (map PStr (filter (\<lambda>s. lower s = lower fname) names))"
  by (induction names) auto

lemma matching_fields_nonstring:
  "\<exists>x \<in> set xs. \<forall>s. x \<noteq> PStr s \<Longrightarrow> matching_fields lower fname xs = Inl AttributeError"
proof (induction xs)
  case Nil
  then show ?case by simp
next
  case (Cons x xs)
  show ?case
  proof (cases x)
    case (PStr s)
    with Cons.prems have "\<exists>x \<in> set xs. \<forall>s. x \<noteq> PStr s" by auto
    then have "matching_fields lower fname xs = Inl AttributeError" by (rule Cons.IH)
    with PStr show ?thesis by simp
  qed simp_all
qed

section \<open>Facts about processing a sheet\<close>

lemma filter_data_strings:
  "filter_data lower (map PStr names) fname v data =
     (case filter (\<lambda>s. lower s = lower fname) names of
        [] \<Rightarrow> ([], Some FieldNotFound)
      | f # fs \<Rightarrow> filter_rows (PStr f) v data)"
  by (simp add: filter_data_def matching_fields_strings split: list.splits)

lemma filter_data_nonstring:
  "\<exists>x \<in> set fieldnames. \<forall>s. x \<noteq> PStr s \<Longrightarrow>
   filter_data lower fieldnames fname v data = ([], Some AttributeError)"
  by (simp add: filter_data_def matching_fields_nonstring)

lemma filter_rows_error: "snd (filter_rows f v data) = Some e \<Longrightarrow> e = KeyError"
  by (simp add: filter_rows_snd split: if_splits)

lemma filter_data_error:
  "snd (filter_data lower fieldnames fname v data) = Some e \<Longrightarrow>
   e = AttributeError \<or> e = FieldNotFound \<or> e = KeyError"
  by (auto simp: filter_data_def split: sum.splits list.splits
      dest: matching_fields_Inl filter_rows_error)

lemma process_sheet_no_table:
  "rows_of_table sheet = [] \<Longrightarrow> process_sheet lower fname v sheet = Inl TablesNotFound"
  by (simp add: process_sheet_def)

lemma process_sheet_table:
  assumes "rows_of_table sheet = hdr # raw"
  shows "process_sheet lower fname v sheet =
     (case filter_data lower (map cell_value hdr) fname v (format_data (map cell_value hdr) raw) of
        (ys, Some e) \<Rightarrow> Inl e
      | ([], None) \<Rightarrow> Inl RowsNotFound
      | (y # ys, None) \<Rightarrow>
          Inr \<lparr>out_meta = get_meta_data sheet,
               out_fields = filter in_wanted (map cell_value hdr),
               out_rows = map (\<lambda>r. map cell_value (dict_values r))
                            (map (del_fields_row (map cell_value hdr)) (y # ys))\<rparr>)"
  using assms
  by (simp add: process_sheet_def del_fields_def Let_def split: prod.splits list.splits option.splits)

lemma rows_of_table_Nil_iff: "rows_of_table sheet = [] \<longleftrightarrow> \<not> list_ex has_wanted sheet"
  by (simp add: rows_of_table_dropWhile dropWhile_eq_Nil_conv list_ex_iff)

section \<open>The errors of a sheet without a table or without matching rows\<close>

lemma ex_classified:
  "rows_of_table ex_sheet = [ex_header, ex_r1, ex_r2]"
  "get_meta_data ex_sheet = [ex_meta1, ex_meta2]"
  by (simp_all add: rows_of_table_dropWhile get_meta_data_takeWhile ex_sheet_def ex_has_wanted)

lemma ex_filter_director:
  "filter_data lower_basic ex_fieldnames txt_position_lc (PStr txt_director)
     (format_data ex_fieldnames [ex_r1, ex_r2]) = ([], None)"
  by (simp add: filter_data_def format_data_def format_row_def py_eq_def lower_basic_def lower_cp_def
      str_int_def str_nat.simps ex_fieldnames_def ex_header_def ex_r1_def ex_r2_def mk_cell_def
      txt_fio_def txt_age_def txt_position_def txt_position_lc_def
      txt_engineer_def txt_ivanov_def txt_petrov_def txt_director_def)

lemma ex_filter_engineer:
  "filter_data lower_basic ex_fieldnames txt_position_lc (PStr txt_engineer)
     (format_data ex_fieldnames [ex_r1, ex_r2])
   = ([format_row ex_fieldnames ex_r1, format_row ex_fieldnames ex_r2], None)"
  by (simp add: filter_data_def format_data_def format_row_def py_eq_def lower_basic_def lower_cp_def
      str_int_def str_nat.simps ex_fieldnames_def ex_header_def ex_r1_def ex_r2_def mk_cell_def
      txt_fio_def txt_age_def txt_position_def txt_position_lc_def
      txt_engineer_def txt_ivanov_def txt_petrov_def)

lemma filter_data_not_TablesNotFound:
  "snd (filter_data lower fieldnames fname v data) \<noteq> Some TablesNotFound"
  using filter_data_error [of lower fieldnames fname v data TablesNotFound] by auto

lemma filter_data_not_RowsNotFound:
  "snd (filter_data lower fieldnames fname v data) \<noteq> Some RowsNotFound"
  using filter_data_error [of lower fieldnames fname v data RowsNotFound] by auto

text \<open>
  Claim C6. Processing a worksheet ends with \<^verbatim>\<open>TablesNotFound\<close> exactly when no row of
  the sheet has a whitelisted name, that is, when no cell value of the sheet is exactly
  one of the whitelisted strings: the table segment is then empty and there is no header
  row. As soon as one row has a whitelisted name, whatever else goes wrong is not
  \<^verbatim>\<open>TablesNotFound\<close>.
\<close>

theorem tables_not_found_iff:
  "(process_sheet lower fname v sheet = Inl TablesNotFound \<longleftrightarrow> \<not> (\<exists>r \<in> set sheet. has_wanted r))
   \<and> (has_wanted r \<longleftrightarrow> (\<exists>c \<in> set r. \<exists>w \<in> set WANTED_FIELDS. cell_value c = PStr w))"
proof (cases "rows_of_table sheet")
  case Nil
  then show ?thesis
    using rows_of_table_Nil_iff [of sheet]
    by (simp add: process_sheet_no_table list_ex_iff has_wanted_iff)
next
  case (Cons hdr raw)
  then have ex: "\<exists>r \<in> set sheet. has_wanted r"
    using rows_of_table_Nil_iff [of sheet] by (simp add: list_ex_iff)
  obtain ys e where g: "filter_data lower (map cell_value hdr) fname v
      (format_data (map cell_value hdr) raw) = (ys, e)"
    by (cases "filter_data lower (map cell_value hdr) fname v (format_data (map cell_value hdr) raw)")
  have "e \<noteq> Some TablesNotFound"
    using filter_data_not_TablesNotFound [of lower "map cell_value hdr" fname v
        "format_data (map cell_value hdr) raw"] g by simp
  then have "process_sheet lower fname v sheet \<noteq> Inl TablesNotFound"
    by (auto simp: process_sheet_table [OF Cons] g split: option.splits list.splits)
  with ex show ?thesis by (simp add: has_wanted_iff)
qed


theorem tables_not_found_iff_witness:
  "process_sheet lower_basic txt_position (PStr txt_engineer) [ex_meta1, ex_meta2] = Inl TablesNotFound
   \<and> \<not> has_wanted ex_meta1 \<and> \<not> has_wanted ex_meta2
   \<and> process_sheet lower_basic txt_position (PStr txt_engineer) ex_sheet \<noteq> Inl TablesNotFound
   \<and> has_wanted ex_header"
  using tables_not_found_iff [of lower_basic txt_position "PStr txt_engineer" "[ex_meta1, ex_meta2]" ex_header]
    tables_not_found_iff [of lower_basic txt_position "PStr txt_engineer" ex_sheet ex_header]
  by (simp add: ex_has_wanted ex_sheet_def)

lemma filter_rows_empty_iff:
  "filter_rows f v data = ([], None) \<longleftrightarrow>
     (\<forall>r \<in> set data. \<exists>c. dict_get r f = Some c \<and> PStr (py_str (cell_value c)) \<noteq> v)"
proof (induction data)
  case Nil
  show ?case by simp
next
  case (Cons r data)
  obtain ys e where rest: "filter_rows f v data = (ys, e)" by (cases "filter_rows f v data")
  show ?case
  proof (cases "dict_get r f")
    case None
    then show ?thesis by simp
  next
    case (Some c)
    with Cons.IH rest show ?thesis by (auto simp: py_eq_PStr Let_def split: if_splits)
  qed
qed

section \<open>Header lookup\<close>

lemma filter_first_match:
  assumes "lower f = lower fname" and "\<not> (\<exists>s \<in> set pre. lower s = lower fname)"
  shows "filter (\<lambda>s. lower s = lower fname) (pre @ f # post)
         = f # filter (\<lambda>s. lower s = lower fname) post"
proof -
  have "filter (\<lambda>s. lower s = lower fname) pre = []"
    using assms(2) by (simp add: filter_empty_conv)
  with assms(1) show ?thesis by simp
qed

lemma all_strings_map:
  "\<not> (\<exists>x \<in> set xs. \<forall>s. x \<noteq> PStr s) \<Longrightarrow> \<exists>names. xs = map PStr names"
proof (induction xs)
  case Nil
  show ?case by simp
next
  case (Cons x xs)
  then obtain names where names: "xs = map PStr names" by auto
  from Cons.prems obtain s where "x = PStr s" by auto
  with names have "x # xs = map PStr (s # names)" by simp
  then show ?case by (rule exI)
qed

text \<open>
  Claim C4, as amended. When every header value is a string, filtering ends with
  \<^verbatim>\<open>FieldNotFound\<close> exactly when no header name has the lower-case form of the
  requested field name; and when the header reads \<open>pre @ f # post\<close> with \<open>f\<close> the first
  name that matches, no \<^verbatim>\<open>FieldNotFound\<close> is raised and the filter is the loop over the
  records with the key \<open>f\<close>.
\<close>

theorem field_not_found_iff:
  "(snd (filter_data lower (map PStr names) fname v data) = Some FieldNotFound
      \<longleftrightarrow> \<not> (\<exists>s \<in> set names. lower s = lower fname))
   \<and> (lower f = lower fname \<and> \<not> (\<exists>s \<in> set pre. lower s = lower fname) \<longrightarrow>
        filter_data lower (map PStr (pre @ f # post)) fname v data = filter_rows (PStr f) v data
        \<and> snd (filter_data lower (map PStr (pre @ f # post)) fname v data) \<noteq> Some FieldNotFound)"
proof (intro conjI impI)
  show "snd (filter_data lower (map PStr names) fname v data) = Some FieldNotFound
      \<longleftrightarrow> \<not> (\<exists>s \<in> set names. lower s = lower fname)"
  proof (cases "filter (\<lambda>s. lower s = lower fname) names")
    case Nil
    then show ?thesis by (simp add: filter_data_strings filter_empty_conv)
  next
    case (Cons g gs)
    then have "g \<in> set (filter (\<lambda>s. lower s = lower fname) names)" by simp
    then have "\<exists>s \<in> set names. lower s = lower fname" by auto
    moreover have "snd (filter_rows (PStr g) v data) \<noteq> Some FieldNotFound"
      using filter_rows_error [of "PStr g" v data FieldNotFound] by auto
    ultimately show ?thesis by (simp add: filter_data_strings Cons)
  qed
next
  assume a: "lower f = lower fname \<and> \<not> (\<exists>s \<in> set pre. lower s = lower fname)"
  then have "filter (\<lambda>s. lower s = lower fname) (pre @ f # post)
         = f # filter (\<lambda>s. lower s = lower fname) post"
    by (intro filter_first_match) simp_all
  then show eq: "filter_data lower (map PStr (pre @ f # post)) fname v data
      = filter_rows (PStr f) v data"
    by (simp only: filter_data_strings list.case)
  have "snd (filter_rows (PStr f) v data) \<noteq> Some FieldNotFound"
    using filter_rows_error [of "PStr f" v data FieldNotFound] by auto
  with eq show "snd (filter_data lower (map PStr (pre @ f # post)) fname v data) \<noteq> Some FieldNotFound"
    by simp
qed

theorem field_not_found_iff_witness:
  "snd (filter_data lower_basic (map PStr [txt_fio, txt_age, txt_position]) txt_salary
        (PStr txt_engineer) (format_data ex_fieldnames [ex_r1, ex_r2])) = Some FieldNotFound
   \<and> lower_basic txt_position = lower_basic txt_position_lc
   \<and> filter_data lower_basic (map PStr ([txt_fio, txt_age] @ txt_position # [])) txt_position_lc
        (PStr txt_engineer) (format_data ex_fieldnames [ex_r1, ex_r2])
      = filter_rows (PStr txt_position) (PStr txt_engineer) (format_data ex_fieldnames [ex_r1, ex_r2])"
  using field_not_found_iff [of lower_basic "[txt_fio, txt_age, txt_position]" txt_salary
      "PStr txt_engineer" "format_data ex_fieldnames [ex_r1, ex_r2]"]
    field_not_found_iff [of lower_basic "[txt_fio, txt_age, txt_position]" txt_position_lc
      "PStr txt_engineer" "format_data ex_fieldnames [ex_r1, ex_r2]" txt_position "[txt_fio, txt_age]" "[]"]
  by (simp add: lower_basic_def lower_cp_def txt_fio_def txt_age_def txt_position_def
      txt_position_lc_def txt_salary_def)

theorem field_not_found_counterexample:
  "snd (filter_data lower_basic [PNone, PStr txt_fio] txt_salary (PStr txt_engineer) [])
     = Some AttributeError
   \<and> snd (filter_data lower_basic [PNone, PStr txt_fio] txt_salary (PStr txt_engineer) [])
     \<noteq> Some FieldNotFound
   \<and> \<not> (\<exists>s. PStr s \<in> set [PNone, PStr txt_fio] \<and> lower_basic s = lower_basic txt_salary)"
  by (simp add: filter_data_def lower_basic_def lower_cp_def txt_fio_def txt_salary_def)

text \<open>
  Claim C10. The header lookup of \<^verbatim>\<open>_filter_data\<close> ends with \<^verbatim>\<open>AttributeError\<close>
  exactly when some header value is not a string (a blank cell, a number, a date): it
  then neither finds a match nor raises \<^verbatim>\<open>FieldNotFound\<close>, and no record is yielded. The
  header values are the cell values of the first table row as they are, so processing a
  sheet whose header row has such a cell ends with \<^verbatim>\<open>AttributeError\<close>.
\<close>

theorem attribute_error_iff:
  "(snd (filter_data lower fieldnames fname v data) = Some AttributeError
      \<longleftrightarrow> (\<exists>x \<in> set fieldnames. \<forall>s. x \<noteq> PStr s))
   \<and> ((\<exists>x \<in> set fieldnames. \<forall>s. x \<noteq> PStr s) \<longrightarrow>
        filter_data lower fieldnames fname v data = ([], Some AttributeError))
   \<and> (rows_of_table sheet = hdr # raw \<and> (\<exists>c \<in> set hdr. \<forall>s. cell_value c \<noteq> PStr s) \<longrightarrow>
        process_sheet lower fname v sheet = Inl AttributeError)"
proof (intro conjI impI)
  show "snd (filter_data lower fieldnames fname v data) = Some AttributeError
      \<longleftrightarrow> (\<exists>x \<in> set fieldnames. \<forall>s. x \<noteq> PStr s)"
  proof (cases "\<exists>x \<in> set fieldnames. \<forall>s. x \<noteq> PStr s")
    case True
    then show ?thesis by (simp add: filter_data_nonstring)
  next
    case False
    then obtain names where names: "fieldnames = map PStr names"
      using all_strings_map by blast
    have "snd (filter_rows f v data) \<noteq> Some AttributeError" for f
      using filter_rows_error [of f v data AttributeError] by auto
    then have "snd (filter_data lower (map PStr names) fname v data) \<noteq> Some AttributeError"
      by (simp add: filter_data_strings split: list.splits)
    with False names show ?thesis by simp
  qed
next
  assume "\<exists>x \<in> set fieldnames. \<forall>s. x \<noteq> PStr s"
  then show "filter_data lower fieldnames fname v data = ([], Some AttributeError)"
    by (rule filter_data_nonstring)
next
  assume a: "rows_of_table sheet = hdr # raw \<and> (\<exists>c \<in> set hdr. \<forall>s. cell_value c \<noteq> PStr s)"
  then have "\<exists>x \<in> set (map cell_value hdr). \<forall>s. x \<noteq> PStr s" by auto
  then have "filter_data lower (map cell_value hdr) fname v (format_data (map cell_value hdr) raw)
      = ([], Some AttributeError)"
    by (rule filter_data_nonstring)
  with a show "process_sheet lower fname v sheet = Inl AttributeError"
    by (simp add: process_sheet_table [of sheet hdr raw])
qed

lemma ex_blank_classified: "rows_of_table ex_sheet_blank = [ex_header_blank, ex_r1]"
  by (simp add: rows_of_table_def has_wanted_def in_wanted_def py_eq_def WANTED_FIELDS_def
      ex_sheet_blank_def ex_meta1_def ex_header_blank_def ex_r1_def mk_cell_def
      txt_fio_def txt_position_def txt_ivanov_def txt_engineer_def)

theorem attribute_error_iff_witness:
  "snd (filter_data lower_basic (map cell_value ex_header_blank) txt_fio (PStr txt_ivanov)
        (format_data (map cell_value ex_header_blank) [ex_r1])) = Some AttributeError
   \<and> filter_data lower_basic (map cell_value ex_header_blank) txt_fio (PStr txt_ivanov)
        (format_data (map cell_value ex_header_blank) [ex_r1]) = ([], Some AttributeError)
   \<and> rows_of_table ex_sheet_blank = ex_header_blank # [ex_r1]
   \<and> process_sheet lower_basic txt_fio (PStr txt_ivanov) ex_sheet_blank = Inl AttributeError"
proof -
  have blank: "\<exists>c \<in> set ex_header_blank. \<forall>s. cell_value c \<noteq> PStr s"
    by (simp add: ex_header_blank_def mk_cell_def)
  then have blank': "\<exists>x \<in> set (map cell_value ex_header_blank). \<forall>s. x \<noteq> PStr s"
    by simp
  show ?thesis
    using attribute_error_iff [of lower_basic "map cell_value ex_header_blank" txt_fio
        "PStr txt_ivanov" "format_data (map cell_value ex_header_blank) [ex_r1]"
        ex_sheet_blank ex_header_blank "[ex_r1]"] blank blank' ex_blank_classified
    by simp
qed

section \<open>Records without the filter column\<close>

lemma dict_get_format_row_None:
  "dict_get (format_row (map PStr names) r) (PStr f) = None \<longleftrightarrow> f \<notin> set (take (length r) names)"
proof -
  have "column_set (take (length r) (map PStr names)) = KStr ` set (take (length r) names)"
    by (simp add: column_set_def take_map image_image)
  then show ?thesis
    by (auto simp: dict_get_None key_set_format_row)
qed

lemma first_match_in_take:
  assumes "f \<notin> set pre"
  shows "f \<in> set (take n (pre @ f # post)) \<longleftrightarrow> length pre < n"
proof (cases "length pre < n")
  case True
  then obtain m where "n - length pre = Suc m" by (cases "n - length pre") auto
  then show ?thesis using True by simp
next
  case False
  then have "take n (pre @ f # post) = take n pre" by simp
  with assms False show ?thesis by (auto dest: in_set_takeD)
qed

lemma short_row_lacks_key:
  assumes "lower f = lower fname" and "\<not> (\<exists>s \<in> set pre. lower s = lower fname)"
  shows "dict_get (format_row (map PStr (pre @ f # post)) r) (PStr f) = None \<longleftrightarrow> length r \<le> length pre"
proof -
  from assms have nin: "f \<notin> set pre" by auto
  show ?thesis
    by (simp only: dict_get_format_row_None first_match_in_take [OF nin] not_less)
qed

text \<open>
  Claim C9. Let the header be a list of strings \<open>pre @ f # post\<close> in which \<open>f\<close> is the first
  name that matches the requested field. The filter over the records of the data rows
  ends with \<^verbatim>\<open>KeyError\<close> exactly when some data row has no cell at the position of \<open>f\<close>
  (at most \<open>length pre\<close> cells): the record that \<open>zip\<close> builds for such a row has no key
  \<open>f\<close>, and \<^verbatim>\<open>row[field[0]]\<close> raises. The row is not skipped, and processing the sheet
  ends with \<^verbatim>\<open>KeyError\<close>, none of the three exceptions of the processor.
\<close>

theorem key_error_on_short_row:
  assumes "lower f = lower fname" and "\<not> (\<exists>s \<in> set pre. lower s = lower fname)"
  shows "(snd (filter_data lower (map PStr (pre @ f # post)) fname v
               (format_data (map PStr (pre @ f # post)) rows)) = Some KeyError
            \<longleftrightarrow> (\<exists>r \<in> set rows. length r \<le> length pre))
         \<and> (rows_of_table sheet = hdr # rows \<and> map cell_value hdr = map PStr (pre @ f # post)
              \<and> (\<exists>r \<in> set rows. length r \<le> length pre)
            \<longrightarrow> process_sheet lower fname v sheet = Inl KeyError)"
proof -
  let ?names = "pre @ f # post"
  let ?data = "format_data (map PStr ?names) rows"
  have "filter (\<lambda>s. lower s = lower fname) ?names = f # filter (\<lambda>s. lower s = lower fname) post"
    using assms by (rule filter_first_match)
  then have eq: "filter_data lower (map PStr ?names) fname v ?data = filter_rows (PStr f) v ?data"
    by (simp only: filter_data_strings list.case)
  have all: "list_all (\<lambda>r. dict_get r (PStr f) \<noteq> None) ?data \<longleftrightarrow> \<not> (\<exists>r \<in> set rows. length r \<le> length pre)"
  proof -
    have k: "dict_get (format_row (map PStr ?names) r) (PStr f) \<noteq> None \<longleftrightarrow> \<not> length r \<le> length pre"
      for r
      by (simp only: short_row_lacks_key [OF assms])
    have "(\<forall>r \<in> set rows. dict_get (format_row (map PStr ?names) r) (PStr f) \<noteq> None)
        \<longleftrightarrow> \<not> (\<exists>r \<in> set rows. length r \<le> length pre)"
      by (simp only: k) blast
    then show ?thesis
      by (simp only: format_data_def list_all_iff set_map ball_simps)
  qed
  have first: "snd (filter_data lower (map PStr ?names) fname v ?data) = Some KeyError
      \<longleftrightarrow> (\<exists>r \<in> set rows. length r \<le> length pre)"
    unfolding eq filter_rows_snd all by simp
  have second: "process_sheet lower fname v sheet = Inl KeyError"
    if a: "rows_of_table sheet = hdr # rows \<and> map cell_value hdr = map PStr ?names
        \<and> (\<exists>r \<in> set rows. length r \<le> length pre)"
  proof -
    obtain ys e where g: "filter_data lower (map PStr ?names) fname v ?data = (ys, e)"
      by (cases "filter_data lower (map PStr ?names) fname v ?data")
    with first a have "e = Some KeyError" by simp
    with g a show ?thesis
      by (simp add: process_sheet_table [of sheet hdr rows] split: list.splits)
  qed
  from first second show ?thesis by blast
qed

lemma ex_short_classified: "rows_of_table ex_sheet_short = [ex_header, ex_r1, ex_short]"
  by (simp add: rows_of_table_def has_wanted_def in_wanted_def py_eq_def WANTED_FIELDS_def
      ex_sheet_short_def ex_meta1_def ex_header_def ex_r1_def ex_short_def mk_cell_def
      txt_fio_def txt_age_def txt_position_def
      txt_ivanov_def txt_engineer_def txt_petrov_def)

theorem key_error_on_short_row_witness:
  "lower_basic txt_position = lower_basic txt_position_lc
   \<and> snd (filter_data lower_basic (map PStr ([txt_fio, txt_age] @ txt_position # [])) txt_position_lc
          (PStr txt_engineer)
          (format_data (map PStr ([txt_fio, txt_age] @ txt_position # [])) [ex_r1, ex_short]))
       = Some KeyError
   \<and> length ex_short \<le> length [txt_fio, txt_age]
   \<and> process_sheet lower_basic txt_position_lc (PStr txt_engineer) ex_sheet_short = Inl KeyError"
proof -
  have a: "lower_basic txt_position = lower_basic txt_position_lc"
    by (simp add: lower_basic_def lower_cp_def txt_position_def txt_position_lc_def)
  have b: "\<not> (\<exists>s \<in> set [txt_fio, txt_age]. lower_basic s = lower_basic txt_position_lc)"
    by (simp add: lower_basic_def lower_cp_def txt_fio_def txt_age_def txt_position_lc_def)
  have c: "map cell_value ex_header = map PStr ([txt_fio, txt_age] @ txt_position # [])"
    by (simp add: ex_header_def mk_cell_def)
  have d: "length ex_short \<le> length [txt_fio, txt_age]"
    by (simp add: ex_short_def)
  show ?thesis
    using key_error_on_short_row [OF a b, of "[]" "PStr txt_engineer" "[ex_r1, ex_short]"
        ex_sheet_short ex_header] a c d ex_short_classified
    by simp
qed

section \<open>Which records the filter yields\<close>

lemma field_text_None: "field_text r f = None \<longleftrightarrow> dict_get r f = None"
  by (simp add: field_text_def)

lemma field_text_Some:
  "field_text r f = Some t \<longleftrightarrow> (\<exists>c. dict_get r f = Some c \<and> PStr (py_str (cell_value c)) = PStr t)"
  by (auto simp: field_text_def)

lemma filter_rows_text:
  "fst (filter_rows f (PStr t) data) =
     filter (\<lambda>r. field_text r f = Some t) (takeWhile (\<lambda>r. field_text r f \<noteq> None) data)"
  by (simp only: filter_rows_fst field_text_Some field_text_None)

lemma filter_rows_total:
  assumes "\<forall>r \<in> set data. field_text r f \<noteq> None"
  shows "filter_rows f (PStr t) data = (filter (\<lambda>r. field_text r f = Some t) data, None)"
proof -
  from assms have tw: "takeWhile (\<lambda>r. field_text r f \<noteq> None) data = data"
    by (simp add: takeWhile_eq_all_conv)
  from assms have "list_all (\<lambda>r. dict_get r f \<noteq> None) data"
    by (simp add: list_all_iff field_text_None)
  then have "snd (filter_rows f (PStr t) data) = None"
    by (simp add: filter_rows_snd)
  moreover have "fst (filter_rows f (PStr t) data) = filter (\<lambda>r. field_text r f = Some t) data"
    by (simp only: filter_rows_text tw)
  ultimately show ?thesis by (simp add: prod_eq_iff)
qed

text \<open>
  Claim C1, as amended. Let every header value be a string, so that the header reads
  \<open>pre @ f # post\<close> with \<open>f\<close> the first name whose lower-case form is that of the requested
  field, and let the target be the string \<open>t\<close>. When every record has a cell under \<open>f\<close>,
  the filter ends without an exception and a record survives exactly when it is one of
  the records and the string form of its cell under \<open>f\<close> is \<open>t\<close>; the survivors keep their
  order. In general the filter reads the records in order until one has no cell under
  \<open>f\<close>, and yields, of the records it reads, exactly those with the string form \<open>t\<close>
  there. A yielded record always has the string form \<open>t\<close> under \<open>f\<close>, so a record whose
  string form there is any other string \<open>u\<close> (one that differs from \<open>t\<close> only in case, or
  the digits of a number that the target writes otherwise) is not yielded.
\<close>

theorem filter_keeps_exact_matches:
  assumes "lower f = lower fname" and "\<not> (\<exists>s \<in> set pre. lower s = lower fname)"
  shows "((\<forall>r \<in> set data. field_text r (PStr f) \<noteq> None) \<longrightarrow>
              (r \<in> set (fst (filter_data lower (map PStr (pre @ f # post)) fname (PStr t) data))
                 \<longleftrightarrow> r \<in> set data \<and> field_text r (PStr f) = Some t)
              \<and> filter_data lower (map PStr (pre @ f # post)) fname (PStr t) data
                = (filter (\<lambda>r. field_text r (PStr f) = Some t) data, None))
         \<and> fst (filter_data lower (map PStr (pre @ f # post)) fname (PStr t) data)
           = filter (\<lambda>r. field_text r (PStr f) = Some t)
               (takeWhile (\<lambda>r. field_text r (PStr f) \<noteq> None) data)
         \<and> (field_text r (PStr f) = Some u \<and> u \<noteq> t \<longrightarrow>
              r \<notin> set (fst (filter_data lower (map PStr (pre @ f # post)) fname (PStr t) data)))"
proof -
  have "filter (\<lambda>s. lower s = lower fname) (pre @ f # post)
      = f # filter (\<lambda>s. lower s = lower fname) post"
    using assms by (rule filter_first_match)
  then have eq: "filter_data lower (map PStr (pre @ f # post)) fname (PStr t) data
      = filter_rows (PStr f) (PStr t) data"
    by (simp only: filter_data_strings list.case)
  have one: "fst (filter_rows (PStr f) (PStr t) data)
      = filter (\<lambda>r. field_text r (PStr f) = Some t)
          (takeWhile (\<lambda>r. field_text r (PStr f) \<noteq> None) data)"
    by (rule filter_rows_text)
  have two: "filter_rows (PStr f) (PStr t) data
      = (filter (\<lambda>r. field_text r (PStr f) = Some t) data, None)"
    if "\<forall>r \<in> set data. field_text r (PStr f) \<noteq> None"
    using that by (rule filter_rows_total)
  have three: "r \<notin> set (fst (filter_rows (PStr f) (PStr t) data))"
    if "field_text r (PStr f) = Some u \<and> u \<noteq> t"
    using that unfolding one by auto
  have four: "r \<in> set (fst (filter_rows (PStr f) (PStr t) data))
      \<longleftrightarrow> r \<in> set data \<and> field_text r (PStr f) = Some t"
    if "\<forall>r \<in> set data. field_text r (PStr f) \<noteq> None"
    using two [OF that] by simp
  from one two three four show ?thesis unfolding eq by blast
qed


lemma ex_field_texts:
  "field_text (format_row ex_fieldnames ex_r1) (PStr txt_position) = Some txt_engineer"
  "field_text (format_row ex_fieldnames ex_r2) (PStr txt_position) = Some txt_engineer"
  "field_text (format_row ex_fieldnames ex_r3) (PStr txt_position) = Some txt_engineer_lc"
  by (simp_all add: field_text_def format_row_def py_eq_def ex_fieldnames_def ex_header_def
      ex_r1_def ex_r2_def ex_r3_def mk_cell_def txt_fio_def txt_age_def txt_position_def
      txt_engineer_def txt_engineer_lc_def txt_ivanov_def txt_petrov_def)

lemma ex_engineer_case:
  "lower_basic txt_engineer_lc = lower_basic txt_engineer" "txt_engineer_lc \<noteq> txt_engineer"
  by (simp_all add: lower_basic_def lower_cp_def txt_engineer_def txt_engineer_lc_def)

theorem filter_keeps_exact_matches_witness:
  "lower_basic txt_position = lower_basic txt_position_lc
   \<and> field_text (format_row ex_fieldnames ex_r1) (PStr txt_position) = Some txt_engineer
   \<and> field_text (format_row ex_fieldnames ex_r2) (PStr txt_position) = Some txt_engineer
   \<and> field_text (format_row ex_fieldnames ex_r3) (PStr txt_position) = Some txt_engineer_lc
   \<and> format_row ex_fieldnames ex_r1
       \<in> set (fst (filter_data lower_basic (map PStr ([txt_fio, txt_age] @ txt_position # []))
                 txt_position_lc (PStr txt_engineer)
                 (format_data ex_fieldnames [ex_r1, ex_r3, ex_r2])))
   \<and> fst (filter_data lower_basic (map PStr ([txt_fio, txt_age] @ txt_position # [])) txt_position_lc
          (PStr txt_engineer) (format_data ex_fieldnames [ex_r1, ex_r3, ex_r2]))
       = [format_row ex_fieldnames ex_r1, format_row ex_fieldnames ex_r2]
   \<and> filter_data lower_basic (map PStr ([txt_fio, txt_age] @ txt_position # [])) txt_position_lc
          (PStr txt_engineer) (format_data ex_fieldnames [ex_r1, ex_r3, ex_r2])
       = ([format_row ex_fieldnames ex_r1, format_row ex_fieldnames ex_r2], None)
   \<and> lower_basic txt_engineer_lc = lower_basic txt_engineer
   \<and> txt_engineer_lc \<noteq> txt_engineer
   \<and> format_row ex_fieldnames ex_r3
       \<notin> set (fst (filter_data lower_basic (map PStr ([txt_fio, txt_age] @ txt_position # []))
                 txt_position_lc (PStr txt_engineer)
                 (format_data ex_fieldnames [ex_r1, ex_r3, ex_r2])))"
proof -
  have a: "lower_basic txt_position = lower_basic txt_position_lc"
    by (simp add: lower_basic_def lower_cp_def txt_position_def txt_position_lc_def)
  have b: "\<not> (\<exists>s \<in> set [txt_fio, txt_age]. lower_basic s = lower_basic txt_position_lc)"
    by (simp add: lower_basic_def lower_cp_def txt_fio_def txt_age_def txt_position_lc_def)
  show ?thesis
    using filter_keeps_exact_matches [OF a b, of "format_data ex_fieldnames [ex_r1, ex_r3, ex_r2]"
        "format_row ex_fieldnames ex_r1" "[]" txt_engineer txt_engineer_lc]
      filter_keeps_exact_matches [OF a b, of "format_data ex_fieldnames [ex_r1, ex_r3, ex_r2]"
        "format_row ex_fieldnames ex_r3" "[]" txt_engineer txt_engineer_lc] a
    by (auto simp: format_data_def ex_field_texts ex_engineer_case)
qed

text \<open>
  Where the claim as first stated fails. With the header (name, blank, position) and the
  filter name = Ivanov, the record of the row (Ivanov, 30, engineer) has the target as
  the string form of its name, yet the header lookup ends with \<^verbatim>\<open>AttributeError\<close> and
  the record does not survive. With the header (name, age, position), the filter
  position = engineer and a first row that stops after its name, the filter ends with
  \<^verbatim>\<open>KeyError\<close> at that row, and the record of the next row (Ivanov, 30, engineer) does
  not survive either.
\<close>

theorem filter_keeps_exact_matches_counterexample:
  "map cell_value ex_header_blank = [PStr txt_fio, PNone, PStr txt_position]
   \<and> field_text (format_row (map cell_value ex_header_blank) ex_r1) (PStr txt_fio) = Some txt_ivanov
   \<and> filter_data lower_basic (map cell_value ex_header_blank) txt_fio (PStr txt_ivanov)
        (format_data (map cell_value ex_header_blank) [ex_r1]) = ([], Some AttributeError)
   \<and> format_row (map cell_value ex_header_blank) ex_r1
       \<notin> set (fst (filter_data lower_basic (map cell_value ex_header_blank) txt_fio
                 (PStr txt_ivanov) (format_data (map cell_value ex_header_blank) [ex_r1])))
   \<and> field_text (format_row ex_fieldnames ex_r1) (PStr txt_position) = Some txt_engineer
   \<and> filter_data lower_basic ex_fieldnames txt_position_lc (PStr txt_engineer)
        (format_data ex_fieldnames [ex_short, ex_r1]) = ([], Some KeyError)
   \<and> format_row ex_fieldnames ex_r1
       \<notin> set (fst (filter_data lower_basic ex_fieldnames txt_position_lc (PStr txt_engineer)
                 (format_data ex_fieldnames [ex_short, ex_r1])))"
proof -
  have hd: "map cell_value ex_header_blank = [PStr txt_fio, PNone, PStr txt_position]"
    by (simp add: ex_header_blank_def mk_cell_def)
  have ft: "field_text (format_row (map cell_value ex_header_blank) ex_r1) (PStr txt_fio)
      = Some txt_ivanov"
    by (simp add: field_text_def format_row_def py_eq_def ex_header_blank_def ex_r1_def
        mk_cell_def txt_fio_def txt_position_def txt_ivanov_def txt_engineer_def)
  have fd: "filter_data lower_basic (map cell_value ex_header_blank) txt_fio (PStr txt_ivanov)
        (format_data (map cell_value ex_header_blank) [ex_r1]) = ([], Some AttributeError)"
    by (rule filter_data_nonstring) (simp add: hd)
  have short: "filter_data lower_basic ex_fieldnames txt_position_lc (PStr txt_engineer)
        (format_data ex_fieldnames [ex_short, ex_r1]) = ([], Some KeyError)"
    by (simp add: filter_data_def format_data_def format_row_def py_eq_def lower_basic_def
        lower_cp_def ex_fieldnames_def ex_header_def ex_short_def mk_cell_def txt_fio_def
        txt_age_def txt_position_def txt_position_lc_def txt_petrov_def)
  from hd ft fd short ex_field_texts(1) show ?thesis by simp
qed

section \<open>When no record survives\<close>

lemma filter_data_total:
  assumes "lower f = lower fname" and "\<not> (\<exists>s \<in> set pre. lower s = lower fname)"
    and "\<forall>r \<in> set data. field_text r (PStr f) \<noteq> None"
  shows "filter_data lower (map PStr (pre @ f # post)) fname (PStr t) data
     = (filter (\<lambda>r. field_text r (PStr f) = Some t) data, None)"
proof -
  have "filter (\<lambda>s. lower s = lower fname) (pre @ f # post)
      = f # filter (\<lambda>s. lower s = lower fname) post"
    using assms(1,2) by (rule filter_first_match)
  then have "filter_data lower (map PStr (pre @ f # post)) fname (PStr t) data
      = filter_rows (PStr f) (PStr t) data"
    by (simp only: filter_data_strings list.case)
  also have "\<dots> = (filter (\<lambda>r. field_text r (PStr f) = Some t) data, None)"
    using assms(3) by (rule filter_rows_total)
  finally show ?thesis .
qed

lemma process_sheet_survivors:
  assumes "rows_of_table sheet = hdr # raw"
    and "fst (filter_data lower (map cell_value hdr) fname v (format_data (map cell_value hdr) raw)) \<noteq> []"
  shows "process_sheet lower fname v sheet \<noteq> Inl RowsNotFound"
proof -
  obtain ys e where g: "filter_data lower (map cell_value hdr) fname v
      (format_data (map cell_value hdr) raw) = (ys, e)"
    by (cases "filter_data lower (map cell_value hdr) fname v (format_data (map cell_value hdr) raw)")
  have "e \<noteq> Some RowsNotFound"
    using filter_data_not_RowsNotFound [of lower "map cell_value hdr" fname v
        "format_data (map cell_value hdr) raw"] g by simp
  moreover have "ys \<noteq> []" using assms(2) g by simp
  ultimately show ?thesis
    by (auto simp: process_sheet_table [OF assms(1)] g split: option.splits list.splits)
qed

lemma process_sheet_no_match:
  assumes tab: "rows_of_table sheet = hdr # raw"
    and hdrs: "map cell_value hdr = map PStr (pre @ f # post)"
    and m: "lower f = lower fname" and first: "\<not> (\<exists>s \<in> set pre. lower s = lower fname)"
    and keys: "\<forall>r \<in> set raw. field_text (format_row (map cell_value hdr) r) (PStr f) \<noteq> None"
  shows "process_sheet lower fname (PStr t) sheet = Inl RowsNotFound \<longleftrightarrow>
         \<not> (\<exists>r \<in> set raw. field_text (format_row (map cell_value hdr) r) (PStr f) = Some t)"
proof -
  let ?data = "format_data (map cell_value hdr) raw"
  have keys': "\<forall>r \<in> set ?data. field_text r (PStr f) \<noteq> None"
    using keys by (simp add: format_data_def)
  have "filter_data lower (map PStr (pre @ f # post)) fname (PStr t) ?data
     = (filter (\<lambda>r. field_text r (PStr f) = Some t) ?data, None)"
    using m first keys' by (rule filter_data_total)
  then have fd: "filter_data lower (map cell_value hdr) fname (PStr t) ?data
     = (filter (\<lambda>r. field_text r (PStr f) = Some t) ?data, None)"
    by (simp only: hdrs)
  have "process_sheet lower fname (PStr t) sheet = Inl RowsNotFound \<longleftrightarrow>
        filter (\<lambda>r. field_text r (PStr f) = Some t) ?data = []"
    by (simp add: process_sheet_table [OF tab] fd split: list.splits)
  also have "\<dots> \<longleftrightarrow> \<not> (\<exists>r \<in> set ?data. field_text r (PStr f) = Some t)"
    by (simp add: filter_empty_conv)
  also have "\<dots> \<longleftrightarrow> \<not> (\<exists>r \<in> set raw. field_text (format_row (map cell_value hdr) r) (PStr f) = Some t)"
    by (simp add: format_data_def)
  finally show ?thesis .
qed

text \<open>
  Claim C5, as amended. Let the sheet have a table whose header values are all strings,
  \<open>pre @ f # post\<close> with \<open>f\<close> the first name that has the lower-case form of the requested
  field, and let every data row have a cell under \<open>f\<close>. Then processing ends with
  \<^verbatim>\<open>RowsNotFound\<close> exactly when no data row has the target string \<open>t\<close> as the string
  form of its cell under \<open>f\<close>. Whatever the header and the rows are, processing ends with
  \<^verbatim>\<open>RowsNotFound\<close> exactly when the sheet has a table and the filter ends without a
  record and without an exception (the \<^verbatim>\<open>StopIteration\<close> of \<^verbatim>\<open>next(filtered_data)\<close>),
  which for a header of strings means that a name matches and every record has a cell
  under the first such name with another string form; and when at least one record
  survives, \<^verbatim>\<open>RowsNotFound\<close> is not raised.
\<close>

theorem rows_not_found_iff:
  "(rows_of_table sheet = hdr # raw
      \<and> map cell_value hdr = map PStr (pre @ f # post)
      \<and> lower f = lower fname \<and> \<not> (\<exists>s \<in> set pre. lower s = lower fname)
      \<and> (\<forall>r \<in> set raw. field_text (format_row (map cell_value hdr) r) (PStr f) \<noteq> None)
    \<longrightarrow> (process_sheet lower fname (PStr t) sheet = Inl RowsNotFound \<longleftrightarrow>
           \<not> (\<exists>r \<in> set raw. field_text (format_row (map cell_value hdr) r) (PStr f) = Some t)))
   \<and> (rows_of_table sheet = hdr # raw
      \<and> fst (filter_data lower (map cell_value hdr) fname v
                (format_data (map cell_value hdr) raw)) \<noteq> []
    \<longrightarrow> process_sheet lower fname v sheet \<noteq> Inl RowsNotFound)
   \<and> (process_sheet lower fname v sheet = Inl RowsNotFound \<longleftrightarrow>
      (\<exists>hdr raw. rows_of_table sheet = hdr # raw
         \<and> filter_data lower (map cell_value hdr) fname v
             (format_data (map cell_value hdr) raw) = ([], None)))
   \<and> (filter_data lower (map PStr names) fname v data = ([], None) \<longleftrightarrow>
      (\<exists>f fs. filter (\<lambda>s. lower s = lower fname) names = f # fs
         \<and> (\<forall>r \<in> set data. \<exists>c. dict_get r (PStr f) = Some c
               \<and> PStr (py_str (cell_value c)) \<noteq> v)))"
proof (intro conjI impI)
  assume a: "rows_of_table sheet = hdr # raw
      \<and> map cell_value hdr = map PStr (pre @ f # post)
      \<and> lower f = lower fname \<and> \<not> (\<exists>s \<in> set pre. lower s = lower fname)
      \<and> (\<forall>r \<in> set raw. field_text (format_row (map cell_value hdr) r) (PStr f) \<noteq> None)"
  from a have tab: "rows_of_table sheet = hdr # raw" by (rule conjunct1)
  from a have hdrs: "map cell_value hdr = map PStr (pre @ f # post)" by blast
  from a have m: "lower f = lower fname" by blast
  from a have first: "\<not> (\<exists>s \<in> set pre. lower s = lower fname)" by blast
  from a have keys: "\<forall>r \<in> set raw. field_text (format_row (map cell_value hdr) r) (PStr f) \<noteq> None"
    by blast
  from tab hdrs m first keys
  show "process_sheet lower fname (PStr t) sheet = Inl RowsNotFound \<longleftrightarrow>
           \<not> (\<exists>r \<in> set raw. field_text (format_row (map cell_value hdr) r) (PStr f) = Some t)"
    by (rule process_sheet_no_match)
next
  assume b: "rows_of_table sheet = hdr # raw
      \<and> fst (filter_data lower (map cell_value hdr) fname v
                (format_data (map cell_value hdr) raw)) \<noteq> []"
  from b have tab: "rows_of_table sheet = hdr # raw" by (rule conjunct1)
  from b have "fst (filter_data lower (map cell_value hdr) fname v
                (format_data (map cell_value hdr) raw)) \<noteq> []" by (rule conjunct2)
  with tab show "process_sheet lower fname v sheet \<noteq> Inl RowsNotFound"
    by (rule process_sheet_survivors)
next
  show "process_sheet lower fname v sheet = Inl RowsNotFound \<longleftrightarrow>
      (\<exists>hdr raw. rows_of_table sheet = hdr # raw
         \<and> filter_data lower (map cell_value hdr) fname v
             (format_data (map cell_value hdr) raw) = ([], None))"
  proof (cases "rows_of_table sheet")
    case Nil
    then show ?thesis by (simp add: process_sheet_no_table)
  next
    case (Cons hdr raw)
    obtain ys e where g: "filter_data lower (map cell_value hdr) fname v
        (format_data (map cell_value hdr) raw) = (ys, e)"
      by (cases "filter_data lower (map cell_value hdr) fname v (format_data (map cell_value hdr) raw)")
    have "e \<noteq> Some RowsNotFound"
      using filter_data_not_RowsNotFound [of lower "map cell_value hdr" fname v
          "format_data (map cell_value hdr) raw"] g by simp
    then show ?thesis
      by (auto simp: process_sheet_table [OF Cons] Cons g split: option.splits list.splits)
  qed
next
  show "filter_data lower (map PStr names) fname v data = ([], None) \<longleftrightarrow>
      (\<exists>f fs. filter (\<lambda>s. lower s = lower fname) names = f # fs
         \<and> (\<forall>r \<in> set data. \<exists>c. dict_get r (PStr f) = Some c
               \<and> PStr (py_str (cell_value c)) \<noteq> v))"
    by (cases "filter (\<lambda>s. lower s = lower fname) names")
      (simp_all add: filter_data_strings filter_rows_empty_iff)
qed

lemma ex_header_strings:
  "map cell_value ex_header = map PStr ([txt_fio, txt_age] @ txt_position # [])"
  by (simp add: ex_header_def mk_cell_def)

lemma ex_position_first:
  "lower_basic txt_position = lower_basic txt_position_lc"
  "\<not> (\<exists>s \<in> set [txt_fio, txt_age]. lower_basic s = lower_basic txt_position_lc)"
  by (simp_all add: lower_basic_def lower_cp_def txt_fio_def txt_age_def txt_position_def
      txt_position_lc_def)

lemma ex_texts_differ:
  "txt_engineer \<noteq> txt_director" "txt_ivanov \<noteq> txt_director"
  by (simp_all add: txt_engineer_def txt_director_def txt_ivanov_def)

theorem rows_not_found_iff_witness:
  "rows_of_table ex_sheet = ex_header # [ex_r1, ex_r2]
   \<and> map cell_value ex_header = map PStr ([txt_fio, txt_age] @ txt_position # [])
   \<and> lower_basic txt_position = lower_basic txt_position_lc
   \<and> field_text (format_row (map cell_value ex_header) ex_r1) (PStr txt_position) = Some txt_engineer
   \<and> field_text (format_row (map cell_value ex_header) ex_r2) (PStr txt_position) = Some txt_engineer
   \<and> txt_engineer \<noteq> txt_director
   \<and> process_sheet lower_basic txt_position_lc (PStr txt_director) ex_sheet = Inl RowsNotFound
   \<and> filter_data lower_basic ex_fieldnames txt_position_lc (PStr txt_director)
       (format_data ex_fieldnames [ex_r1, ex_r2]) = ([], None)
   \<and> fst (filter_data lower_basic (map cell_value ex_header) txt_position_lc (PStr txt_engineer)
            (format_data (map cell_value ex_header) [ex_r1, ex_r2])) \<noteq> []
   \<and> process_sheet lower_basic txt_position_lc (PStr txt_engineer) ex_sheet \<noteq> Inl RowsNotFound"
proof -
  have texts:
    "field_text (format_row (map cell_value ex_header) ex_r1) (PStr txt_position) = Some txt_engineer"
    "field_text (format_row (map cell_value ex_header) ex_r2) (PStr txt_position) = Some txt_engineer"
    using ex_field_texts by (simp_all add: ex_fieldnames_def)
  have survivors: "fst (filter_data lower_basic (map cell_value ex_header) txt_position_lc
      (PStr txt_engineer) (format_data (map cell_value ex_header) [ex_r1, ex_r2])) \<noteq> []"
    using ex_filter_engineer by (simp add: ex_fieldnames_def)
  have none: "filter_data lower_basic ex_fieldnames txt_position_lc (PStr txt_director)
       (format_data ex_fieldnames [ex_r1, ex_r2]) = ([], None)"
    by (rule ex_filter_director)
  show ?thesis
    using rows_not_found_iff [of ex_sheet ex_header "[ex_r1, ex_r2]" "[txt_fio, txt_age]"
        txt_position "[]" lower_basic txt_position_lc txt_director "PStr txt_engineer"]
      ex_classified(1) ex_header_strings ex_position_first texts survivors none ex_texts_differ
    by simp
qed

lemma ex_short_only_classified: "rows_of_table [ex_header, ex_short] = [ex_header, ex_short]"
  by (simp add: rows_of_table_dropWhile ex_has_wanted)

theorem rows_not_found_counterexample:
  "rows_of_table ex_sheet_blank = [ex_header_blank, ex_r1]
   \<and> map cell_value ex_header_blank = [PStr txt_fio, PNone, PStr txt_position]
   \<and> field_text (format_row (map cell_value ex_header_blank) ex_r1) (PStr txt_fio) = Some txt_ivanov
   \<and> txt_ivanov \<noteq> txt_director
   \<and> filter_data lower_basic (map cell_value ex_header_blank) txt_fio (PStr txt_director)
        (format_data (map cell_value ex_header_blank) [ex_r1]) = ([], Some AttributeError)
   \<and> process_sheet lower_basic txt_fio (PStr txt_director) ex_sheet_blank = Inl AttributeError
   \<and> process_sheet lower_basic txt_fio (PStr txt_director) ex_sheet_blank \<noteq> Inl RowsNotFound
   \<and> process_sheet lower_basic txt_salary (PStr txt_engineer) ex_sheet = Inl FieldNotFound
   \<and> process_sheet lower_basic txt_position_lc (PStr txt_director) [ex_header, ex_short]
       = Inl KeyError"
proof -
  have hd: "map cell_value ex_header_blank = [PStr txt_fio, PNone, PStr txt_position]"
    by (simp add: ex_header_blank_def mk_cell_def)
  have ft: "field_text (format_row (map cell_value ex_header_blank) ex_r1) (PStr txt_fio)
      = Some txt_ivanov"
    by (simp add: field_text_def format_row_def py_eq_def ex_header_blank_def ex_r1_def
        mk_cell_def txt_fio_def txt_position_def txt_ivanov_def txt_engineer_def)
  have fd: "filter_data lower_basic (map cell_value ex_header_blank) txt_fio (PStr txt_director)
        (format_data (map cell_value ex_header_blank) [ex_r1]) = ([], Some AttributeError)"
    by (rule filter_data_nonstring) (simp add: hd)
  have blank: "process_sheet lower_basic txt_fio (PStr txt_director) ex_sheet_blank
      = Inl AttributeError"
    by (simp add: process_sheet_table [OF ex_blank_classified] fd)
  have "filter (\<lambda>s. lower_basic s = lower_basic txt_salary) ([txt_fio, txt_age] @ txt_position # [])
      = []"
    by (simp add: lower_basic_def lower_cp_def txt_fio_def txt_age_def txt_position_def
        txt_salary_def)
  then have absent: "filter_data lower_basic (map cell_value ex_header) txt_salary (PStr txt_engineer)
      (format_data (map cell_value ex_header) [ex_r1, ex_r2]) = ([], Some FieldNotFound)"
    by (simp only: ex_header_strings filter_data_strings list.case)
  have field: "process_sheet lower_basic txt_salary (PStr txt_engineer) ex_sheet = Inl FieldNotFound"
    by (simp add: process_sheet_table [OF ex_classified(1)] absent)
  have short: "filter_data lower_basic (map cell_value ex_header) txt_position_lc (PStr txt_director)
      (format_data (map cell_value ex_header) [ex_short]) = ([], Some KeyError)"
    by (simp add: filter_data_def format_data_def format_row_def py_eq_def lower_basic_def
        lower_cp_def ex_header_def ex_short_def mk_cell_def txt_fio_def txt_age_def
        txt_position_def txt_position_lc_def txt_petrov_def)
  have key: "process_sheet lower_basic txt_position_lc (PStr txt_director) [ex_header, ex_short]
      = Inl KeyError"
    by (simp add: process_sheet_table [OF ex_short_only_classified] short)
  from hd ft fd blank field key ex_blank_classified ex_texts_differ(2) show ?thesis by simp
qed

section \<open>The keys of a record before and after projection\<close>

lemma key_set_full_row:
  "length fieldnames \<le> length r \<Longrightarrow> key_set (format_row fieldnames r) = column_set fieldnames"
  by (simp add: key_set_format_row)

lemma filter_rows_subset: "set (fst (filter_rows f v data)) \<subseteq> set data"
  by (auto simp: filter_rows_fst dest: set_takeWhileD)

lemma filter_data_subset: "set (fst (filter_data lower fieldnames fname v data)) \<subseteq> set data"
  using filter_rows_subset
  by (auto simp: filter_data_def split: sum.splits list.splits)

lemma ex_keys:
  "key_set (format_row ex_fieldnames ex_short) = {KStr txt_fio}"
  "column_set ex_fieldnames = {KStr txt_fio, KStr txt_age, KStr txt_position}"
  "KStr txt_position \<notin> key_set (format_row ex_fieldnames ex_short)"
  by (simp_all add: key_set_format_row column_set_def ex_fieldnames_def ex_header_def
      ex_short_def mk_cell_def txt_fio_def txt_age_def txt_position_def txt_petrov_def)

text \<open>
  Claim C7, as amended. The keys of the record built for a data row are the header names
  at the positions for which the row has a cell: the column set of the first
  \<open>length r\<close> header names. For a row with at least as many cells as the header this is
  the whole column set of the header, whatever the header holds (duplicate names are one
  key, a blank name is the key \<^verbatim>\<open>None\<close>); for a shorter row it is the column set of a
  leading part of the header only. After projection every key is whitelisted.
\<close>

theorem record_keys:
  "key_set (format_row fieldnames r) = column_set (take (length r) fieldnames)
   \<and> (length fieldnames \<le> length r \<longrightarrow> key_set (format_row fieldnames r) = column_set fieldnames)
   \<and> key_set (del_fields_row fieldnames (format_row fieldnames r)) \<subseteq> whitelist"
  by (simp add: key_set_format_row key_set_projected)

theorem record_keys_witness:
  "length ex_fieldnames \<le> length ex_r1
   \<and> key_set (format_row ex_fieldnames ex_r1) = column_set ex_fieldnames
   \<and> key_set (format_row ex_fieldnames ex_short) = column_set (take (length ex_short) ex_fieldnames)
   \<and> key_set (del_fields_row ex_fieldnames (format_row ex_fieldnames ex_r1)) \<subseteq> whitelist"
proof -
  have len: "length ex_fieldnames \<le> length ex_r1"
    by (simp add: ex_fieldnames_def ex_header_def ex_r1_def)
  show ?thesis
    using record_keys [of ex_fieldnames ex_r1] record_keys [of ex_fieldnames ex_short] len
    by simp
qed

theorem record_keys_counterexample:
  "key_set (format_row ex_fieldnames ex_short) = {KStr txt_fio}
   \<and> KStr txt_position \<in> column_set ex_fieldnames
   \<and> KStr txt_position \<notin> key_set (format_row ex_fieldnames ex_short)
   \<and> key_set (format_row ex_fieldnames ex_short) \<noteq> column_set ex_fieldnames"
proof -
  have "KStr txt_position \<in> column_set ex_fieldnames"
    by (simp add: ex_keys)
  with ex_keys show ?thesis by auto
qed

lemma del_fields_survivors:
  "set (fst (del_fields fieldnames (filter_data lower fieldnames fname v (format_data fieldnames rows))))
     \<subseteq> (\<lambda>r. del_fields_row fieldnames (format_row fieldnames r)) ` set rows"
proof -
  have "set (fst (filter_data lower fieldnames fname v (format_data fieldnames rows)))
      \<subseteq> format_row fieldnames ` set rows"
    using filter_data_subset [of lower fieldnames fname v "format_data fieldnames rows"]
    by (simp add: format_data_def)
  then show ?thesis
    by (auto simp: del_fields_def)
qed

text \<open>
  Claim C3, as amended. Projection removes from the record of a data row exactly the keys
  that are not whitelisted: the keys of the projected record are the whitelisted keys of
  the record, that is, the whitelisted names among the header names at the positions for
  which the row has a cell. For a row with at least as many cells as the header this is
  the whitelist intersected with the header's column set. A whitelisted name that the
  record does not have stays absent. Every record that survives filtering and is
  projected is the projection of the record of some data row.
\<close>

theorem projection_keys:
  "key_set (del_fields_row fieldnames (format_row fieldnames r))
     = whitelist \<inter> key_set (format_row fieldnames r)
   \<and> key_set (del_fields_row fieldnames (format_row fieldnames r))
     = whitelist \<inter> column_set (take (length r) fieldnames)
   \<and> (length fieldnames \<le> length r \<longrightarrow>
        key_set (del_fields_row fieldnames (format_row fieldnames r))
          = whitelist \<inter> column_set fieldnames)
   \<and> set (fst (del_fields fieldnames
               (filter_data lower fieldnames fname v (format_data fieldnames rows))))
       \<subseteq> (\<lambda>r. del_fields_row fieldnames (format_row fieldnames r)) ` set rows"
  by (simp add: key_set_projected key_set_format_row del_fields_survivors)

lemma ex_whitelisted:
  "KStr txt_fio \<in> whitelist" "KStr txt_age \<notin> whitelist" "KStr txt_position \<in> whitelist"
  "KStr txt_salary \<in> whitelist"
  by (simp_all add: whitelist_def WANTED_FIELDS_def txt_fio_def txt_age_def txt_position_def
      txt_salary_def)

lemma ex_projected_keys:
  "whitelist \<inter> column_set ex_fieldnames = {KStr txt_fio, KStr txt_position}"
  using ex_whitelisted by (auto simp: ex_keys)

theorem projection_keys_witness:
  "length ex_fieldnames \<le> length ex_r1
   \<and> key_set (del_fields_row ex_fieldnames (format_row ex_fieldnames ex_r1))
       = whitelist \<inter> column_set ex_fieldnames
   \<and> key_set (del_fields_row ex_fieldnames (format_row ex_fieldnames ex_r1))
       = {KStr txt_fio, KStr txt_position}
   \<and> set (fst (del_fields ex_fieldnames
               (filter_data lower_basic ex_fieldnames txt_position_lc (PStr txt_engineer)
                  (format_data ex_fieldnames [ex_r1, ex_r2]))))
       \<subseteq> (\<lambda>r. del_fields_row ex_fieldnames (format_row ex_fieldnames r)) ` set [ex_r1, ex_r2]"
proof -
  have len: "length ex_fieldnames \<le> length ex_r1"
    by (simp add: ex_fieldnames_def ex_header_def ex_r1_def)
  show ?thesis
    using projection_keys [of ex_fieldnames ex_r1 lower_basic txt_position_lc
        "PStr txt_engineer" "[ex_r1, ex_r2]"] len ex_projected_keys
    by (simp add: key_set_full_row [OF len])
qed

lemma ex_two_survives:
  "fst (del_fields (map PStr ex_names4)
          (filter_data lower_basic (map PStr ex_names4) txt_fio (PStr txt_ivanov)
             (format_data (map PStr ex_names4) [ex_two])))
     = [del_fields_row (map PStr ex_names4) (format_row (map PStr ex_names4) ex_two)]"
proof -
  let ?h = "map PStr ex_names4"
  let ?rec = "format_row ?h ex_two"
  have ft: "field_text ?rec (PStr txt_fio) = Some txt_ivanov"
    by (simp add: field_text_def format_row_def py_eq_def ex_names4_def ex_two_def mk_cell_def
        txt_fio_def txt_age_def txt_position_def txt_salary_def txt_ivanov_def)
  have flt: "filter (\<lambda>s. lower_basic s = lower_basic txt_fio) ex_names4 = [txt_fio]"
    by (simp add: lower_basic_def lower_cp_def ex_names4_def
        txt_fio_def txt_age_def txt_position_def txt_salary_def)
  have data: "format_data ?h [ex_two] = [?rec]"
    by (simp add: format_data_def)
  have fd: "filter_data lower_basic ?h txt_fio (PStr txt_ivanov) [?rec]
      = filter_rows (PStr txt_fio) (PStr txt_ivanov) [?rec]"
    by (simp only: filter_data_strings flt list.case)
  have "fst (filter_rows (PStr txt_fio) (PStr txt_ivanov) [?rec]) = [?rec]"
    unfolding filter_rows_text by (simp add: ft)
  then show ?thesis
    by (simp only: del_fields_def data fd fst_conv list.map)
qed

theorem projection_keys_counterexample:
  "fst (del_fields (map PStr ex_names4)
          (filter_data lower_basic (map PStr ex_names4) txt_fio (PStr txt_ivanov)
             (format_data (map PStr ex_names4) [ex_two])))
     = [del_fields_row (map PStr ex_names4) (format_row (map PStr ex_names4) ex_two)]
   \<and> KStr txt_salary \<in> whitelist \<inter> column_set (map PStr ex_names4)
   \<and> KStr txt_salary \<notin> key_set (del_fields_row (map PStr ex_names4)
                                  (format_row (map PStr ex_names4) ex_two))
   \<and> key_set (del_fields_row (map PStr ex_names4) (format_row (map PStr ex_names4) ex_two))
       \<noteq> whitelist \<inter> column_set (map PStr ex_names4)"
proof -
  have a: "KStr txt_salary \<in> whitelist \<inter> column_set (map PStr ex_names4)"
    using ex_whitelisted by (simp add: column_set_def ex_names4_def)
  have b: "KStr txt_salary \<notin> key_set (del_fields_row (map PStr ex_names4)
                                  (format_row (map PStr ex_names4) ex_two))"
    by (simp add: key_set_projected column_set_def ex_names4_def ex_two_def mk_cell_def
        txt_fio_def txt_age_def txt_position_def txt_salary_def)
  from a b ex_two_survives show ?thesis by auto
qed

section \<open>Files that cannot be opened or written\<close>

lemma ex_process_sheet:
  "process_sheet lower_basic txt_position_lc (PStr txt_engineer) ex_sheet = Inr ex_out"
  by (simp add: process_sheet_def rows_of_table_def get_meta_data_def has_wanted_def
      in_wanted_def py_eq_def WANTED_FIELDS_def format_data_def format_row_def filter_data_def
      lower_basic_def lower_cp_def str_int_def str_nat.simps del_fields_def del_fields_row_def
      dict_pop_def dict_values_def ex_sheet_def ex_meta1_def ex_meta2_def ex_header_def
      ex_r1_def ex_r2_def mk_cell_def ex_out_def txt_fio_def txt_age_def txt_position_def
      txt_position_lc_def txt_engineer_def txt_ivanov_def txt_petrov_def)

lemma ex_process_sheets:
  "process_sheets lower_basic txt_position_lc (PStr txt_engineer) ex_wb
     = Inr [([83, 104, 101, 101, 116, 49], ex_out)]"
  by (simp add: ex_wb_def ex_process_sheet)




text \<open>
  The two steps on files that can be read and written: the constructor gives the object
  with the output path completed by \<^verbatim>\<open>.xlsx\<close>, and \<^verbatim>\<open>process\<close> saves the new workbook
  under that path and returns its text.
\<close>

lemma ex_init_ok:
  "init load_ex ex_splitext [] [] [105, 110, 46, 120, 108, 115, 120] txt_position_lc
     (PStr txt_engineer) [111, 117, 116]
   = Inr \<lparr>wb = ex_wb, output_path = [111, 117, 116, 46, 120, 108, 115, 120],
          field_name = txt_position_lc, filter_value = PStr txt_engineer\<rparr>"
  by (simp add: init_def load_ex_def ex_splitext_def)

lemma ex_process_ok:
  "process lower_basic save_ok []
     \<lparr>wb = ex_wb, output_path = [111, 117, 116, 46, 120, 108, 115, 120],
      field_name = txt_position_lc, filter_value = PStr txt_engineer\<rparr>
   = (Inr done_text, [[111, 117, 116, 46, 120, 108, 115, 120]])"
  by (simp add: process_def save_ok_def ex_process_sheets)

end
